theory Spec2Isabelle
  imports Complex_Main
begin

section \<open>Errors\<close>

text \<open>
  Every exception the two notebooks can raise in the modelled code is a value of
  \<open>error\<close>; a computation that may raise returns \<open>error + 'a\<close> with \<open>Inl\<close> the
  exception.  \<open>Raised c m\<close> is an exception of class \<open>c\<close> with message \<open>m\<close> coming out
  of a library call (the serializer, \<open>open\<close>).
\<close>

datatype error =
    ValueError
  | IndexError
  | KeyError
  | NameError string
  | TypeError
  | Raised string string

section \<open>Labels: one-hot encoding and argmax\<close>

text \<open>
  \<open>keras.utils.np_utils.to_categorical(y, nb_classes=None)\<close>: the number of classes
  defaults to \<open>np.max(y) + 1\<close> (also when \<open>nb_classes\<close> is \<open>0\<close>, by \<open>if not nb_classes\<close>);
  row \<open>i\<close> is all zeros with a one written at column \<open>y[i]\<close>.  The maximum of an empty
  array raises \<open>ValueError\<close>, a class index beyond the row raises \<open>IndexError\<close>.  Class
  indices are the values of \<open>label_2_int\<close> (drawn from \<open>range\<close>) or MNIST digits, hence
  naturals.
\<close>

definition one_hot :: "nat \<Rightarrow> nat \<Rightarrow> int list" where
  "one_hot nb_classes c = (replicate nb_classes 0)[c := 1]"

definition to_categorical :: "nat list \<Rightarrow> nat option \<Rightarrow> error + int list list" where
  "to_categorical y nb_classes =
     (case (case nb_classes of
              None \<Rightarrow> (if y = [] then Inl ValueError else Inr (Max (set y) + 1))
            | Some n \<Rightarrow> (if n = 0
                         then (if y = [] then Inl ValueError else Inr (Max (set y) + 1))
                         else Inr n)) of
        Inl e \<Rightarrow> Inl e
      | Inr n \<Rightarrow> (if \<forall>c \<in> set y. c < n then Inr (map (one_hot n) y) else Inl IndexError))"

text \<open>
  \<open>np.argmax(row)\<close>: the index of the first occurrence of the maximum; \<open>ValueError\<close> on
  an empty row.  \<open>argmax_from b bi i xs\<close> scans \<open>xs\<close> (whose first index is \<open>i\<close>) with the
  best value \<open>b\<close> seen so far at index \<open>bi\<close>.
\<close>

fun argmax_from :: "'a::linorder \<Rightarrow> nat \<Rightarrow> nat \<Rightarrow> 'a list \<Rightarrow> nat" where
  "argmax_from b bi i [] = bi"
| "argmax_from b bi i (x # xs) =
     (if b < x then argmax_from x i (Suc i) xs else argmax_from b bi (Suc i) xs)"

fun np_argmax :: "'a::linorder list \<Rightarrow> error + nat" where
  "np_argmax [] = Inl ValueError"
| "np_argmax (x # xs) = Inr (argmax_from x 0 1 xs)"

text \<open>
  \<open>uniq_labels = list(set(labels))\<close> and
  \<open>label_2_int = dict(zip(uniq_labels, range(len(uniq_labels))))\<close>.  The iteration order
  of a Python set is not fixed, so \<open>label_2_int\<close> takes the list of unique labels in
  whatever order the set gave it.  The number of distinct labels is the length of that
  list, the cardinality of the set.
\<close>

definition label_2_int :: "string list \<Rightarrow> (string \<rightharpoonup> nat)" where
  "label_2_int uniq_labels = map_of (zip uniq_labels [0..<length uniq_labels])"

definition num_labels :: "string list \<Rightarrow> nat" where
  "num_labels labels = card (set labels)"

text \<open>
  \<open>labels = to_categorical(list(map(lambda l: label_2_int[l], labels)))\<close>: every label
  is looked up in the dictionary (\<open>KeyError\<close> for a label that is no key) and the list
  of class indices is one-hot encoded.
\<close>

fun lookup_all :: "(string \<rightharpoonup> nat) \<Rightarrow> string list \<Rightarrow> error + nat list" where
  "lookup_all d [] = Inr []"
| "lookup_all d (l # ls) =
     (case d l of
        None \<Rightarrow> Inl KeyError
      | Some c \<Rightarrow> (case lookup_all d ls of Inl e \<Rightarrow> Inl e | Inr cs \<Rightarrow> Inr (c # cs)))"

definition encode_labels :: "string list \<Rightarrow> string list \<Rightarrow> error + int list list" where
  "encode_labels uniq_labels labels =
     (case lookup_all (label_2_int uniq_labels) labels of
        Inl e \<Rightarrow> Inl e
      | Inr cs \<Rightarrow> to_categorical cs None)"

section \<open>The model factory of the preprocessing notebook\<close>

datatype activation = Relu | Softmax

datatype layer = Dense nat activation | Dropout rat

text \<open>
  \<open>get_model(num_inputs)\<close>: a \<open>Sequential\<close> model is the list of its layers, in the
  order of the \<open>model.add\<close> calls, together with the input dimension of the first one.
\<close>

record sequential =
  input_dim :: nat
  layers :: "layer list"

definition get_model :: "nat \<Rightarrow> sequential" where
  "get_model num_inputs =
     \<lparr> input_dim = num_inputs,
       layers = [Dense 128 Relu, Dropout (1/2), Dense 64 Relu, Dropout (1/2),
                 Dense 18 Softmax] \<rparr>"

fun softmax_units :: "layer list \<Rightarrow> nat option" where
  "softmax_units [] = None"
| "softmax_units (Dense n Softmax # ls) = Some n"
| "softmax_units (l # ls) = softmax_units ls"

section \<open>Saving the trial history (hyperparameter search notebook)\<close>

text \<open>
  The last statement of the search cell is
  \<^verbatim>\<open>
  try:
      pickle.dump(trials.trials, open(..., 'wb'), recurse=True, byref=False)
  except e:
      print(e)
  \<close>
  When the body raises, Python evaluates the expression after \<open>except\<close>, here the name
  \<open>e\<close>, in the namespace of the notebook.  An unbound name raises \<open>NameError\<close>, which
  leaves the statement; a bound exception class that the raised exception is an
  instance of runs the handler, which prints the object bound to \<open>e\<close>; a bound
  exception class that does not match re-raises; any other object is a \<open>TypeError\<close>.
\<close>

datatype pyval = ExceptionClass string | OtherObject

record outcome =
  printed :: "string list"
  result :: "error + unit"

text \<open>The class of a raised exception and the classes it inherits from.\<close>

fun is_instance :: "error \<Rightarrow> string \<Rightarrow> bool" where
  "is_instance (Raised c m) cls = (cls = c \<or> cls = ''Exception'' \<or> cls = ''BaseException'')"
| "is_instance ValueError cls = (cls \<in> {''ValueError'', ''Exception'', ''BaseException''})"
| "is_instance IndexError cls =
     (cls \<in> {''IndexError'', ''LookupError'', ''Exception'', ''BaseException''})"
| "is_instance KeyError cls =
     (cls \<in> {''KeyError'', ''LookupError'', ''Exception'', ''BaseException''})"
| "is_instance (NameError n) cls = (cls \<in> {''NameError'', ''Exception'', ''BaseException''})"
| "is_instance TypeError cls = (cls \<in> {''TypeError'', ''Exception'', ''BaseException''})"

definition save_trials :: "(string \<rightharpoonup> pyval) \<Rightarrow> (error + unit) \<Rightarrow> outcome" where
  "save_trials namespace dump =
     (case dump of
        Inr u \<Rightarrow> \<lparr> printed = [], result = Inr () \<rparr>
      | Inl x \<Rightarrow>
          (case namespace ''e'' of
             None \<Rightarrow> \<lparr> printed = [], result = Inl (NameError ''e'') \<rparr>
           | Some (ExceptionClass cls) \<Rightarrow>
               (if is_instance x cls
                then \<lparr> printed = [''<class '' @ cls @ ''>''], result = Inr () \<rparr>
                else \<lparr> printed = [], result = Inl x \<rparr>)
           | Some OtherObject \<Rightarrow> \<lparr> printed = [], result = Inl TypeError \<rparr>))"

text \<open>
  The names bound when the search cell runs: the imports of the first cell, the two
  functions \<open>data\<close> and \<open>model\<close>, and the assignments of the search cell itself
  (\<open>trials\<close>, \<open>best_run\<close>, \<open>foo\<close>), with \<open>file\<close> and \<open>t\<close> of the last cell, which the
  execution counts show to have run before.  No cell binds \<open>e\<close>, and it is no builtin.
\<close>

definition notebook_names :: "string list" where
  "notebook_names =
     [''pickle'', ''pprint'', ''mnist'', ''to_categorical'', ''Sequential'', ''Dense'',
      ''Dropout'', ''Activation'', ''Trials'', ''STATUS_OK'', ''tpe'', ''optim'',
      ''choice'', ''uniform'', ''conditional'', ''data'', ''model'', ''trials'',
      ''best_run'', ''foo'', ''file'', ''t'']"

definition notebook_namespace :: "string \<rightharpoonup> pyval" where
  "notebook_namespace = map_of (map (\<lambda>n. (n, OtherObject)) notebook_names)"

section \<open>Floating-point values and arrays\<close>

text \<open>
  A \<open>float64\<close> entry is a finite value, one of the two infinities, or not-a-number.
  Operations follow IEEE 754 on the special values (\<open>inf - inf\<close>, \<open>0/0\<close> and
  \<open>inf/inf\<close> are NaN, a non-zero finite value over zero is an infinity, NaN is
  contagious).  On finite values the operations below are exact and the sign of zero is
  not kept.  The elementwise subtraction and division of the two transforms are these
  exact operations; the reductions \<open>np.mean\<close> and \<open>np.std\<close> round the result of every
  operation they perform (see \<open>rounded\<close> below).
\<close>

datatype npfloat = Fin real | PInf | NInf | NaN

type_synonym matrix = "npfloat list list"

fun fadd :: "npfloat \<Rightarrow> npfloat \<Rightarrow> npfloat" where
  "fadd (Fin x) (Fin y) = Fin (x + y)"
| "fadd NaN b = NaN"
| "fadd a NaN = NaN"
| "fadd PInf NInf = NaN"
| "fadd NInf PInf = NaN"
| "fadd PInf b = PInf"
| "fadd NInf b = NInf"
| "fadd a PInf = PInf"
| "fadd a NInf = NInf"

fun fsub :: "npfloat \<Rightarrow> npfloat \<Rightarrow> npfloat" where
  "fsub (Fin x) (Fin y) = Fin (x - y)"
| "fsub NaN b = NaN"
| "fsub a NaN = NaN"
| "fsub PInf PInf = NaN"
| "fsub NInf NInf = NaN"
| "fsub PInf b = PInf"
| "fsub NInf b = NInf"
| "fsub a PInf = NInf"
| "fsub a NInf = PInf"

fun fmul :: "npfloat \<Rightarrow> npfloat \<Rightarrow> npfloat" where
  "fmul (Fin x) (Fin y) = Fin (x * y)"
| "fmul NaN b = NaN"
| "fmul a NaN = NaN"
| "fmul PInf (Fin y) = (if y = 0 then NaN else if 0 < y then PInf else NInf)"
| "fmul NInf (Fin y) = (if y = 0 then NaN else if 0 < y then NInf else PInf)"
| "fmul (Fin x) PInf = (if x = 0 then NaN else if 0 < x then PInf else NInf)"
| "fmul (Fin x) NInf = (if x = 0 then NaN else if 0 < x then NInf else PInf)"
| "fmul PInf PInf = PInf"
| "fmul NInf NInf = PInf"
| "fmul PInf NInf = NInf"
| "fmul NInf PInf = NInf"

fun fdiv :: "npfloat \<Rightarrow> npfloat \<Rightarrow> npfloat" where
  "fdiv (Fin x) (Fin y) =
     (if y = 0 then (if x = 0 then NaN else if 0 < x then PInf else NInf)
      else Fin (x / y))"
| "fdiv NaN b = NaN"
| "fdiv a NaN = NaN"
| "fdiv (Fin x) b = Fin 0"
| "fdiv PInf (Fin y) = (if 0 \<le> y then PInf else NInf)"
| "fdiv NInf (Fin y) = (if 0 \<le> y then NInf else PInf)"
| "fdiv a b = NaN"

fun fsqrt :: "npfloat \<Rightarrow> npfloat" where
  "fsqrt (Fin x) = (if x < 0 then NaN else Fin (sqrt x))"
| "fsqrt PInf = PInf"
| "fsqrt NInf = NaN"
| "fsqrt NaN = NaN"

text \<open>\<open>np.minimum\<close> and \<open>np.maximum\<close> of two entries: NaN propagates.\<close>

fun fminimum :: "npfloat \<Rightarrow> npfloat \<Rightarrow> npfloat" where
  "fminimum (Fin x) (Fin y) = Fin (min x y)"
| "fminimum NaN b = NaN"
| "fminimum a NaN = NaN"
| "fminimum NInf b = NInf"
| "fminimum a NInf = NInf"
| "fminimum PInf b = b"
| "fminimum a PInf = a"

fun fmaximum :: "npfloat \<Rightarrow> npfloat \<Rightarrow> npfloat" where
  "fmaximum (Fin x) (Fin y) = Fin (max x y)"
| "fmaximum NaN b = NaN"
| "fmaximum a NaN = NaN"
| "fmaximum PInf b = PInf"
| "fmaximum a PInf = PInf"
| "fmaximum NInf b = b"
| "fmaximum a NInf = a"

text \<open>
  \<open>np.nan_to_num\<close>: NaN becomes zero, an infinity becomes the largest finite
  \<open>float64\<close> of its sign, a finite entry is kept.
\<close>

definition float_max :: real where
  "float_max = (2 ^ 53 - 1) * 2 ^ 971"

fun nan_to_num :: "npfloat \<Rightarrow> npfloat" where
  "nan_to_num NaN = Fin 0"
| "nan_to_num PInf = Fin float_max"
| "nan_to_num NInf = Fin (- float_max)"
| "nan_to_num (Fin x) = Fin x"

fun is_finite :: "npfloat \<Rightarrow> bool" where
  "is_finite (Fin x) = True"
| "is_finite a = False"

text \<open>
  A two-dimensional array is the list of its rows.  \<open>np.min(X)\<close> and \<open>np.max(X)\<close>
  reduce over all entries and raise \<open>ValueError\<close> on an array without entries.
\<close>

definition np_min :: "matrix \<Rightarrow> error + npfloat" where
  "np_min X = (case concat X of [] \<Rightarrow> Inl ValueError | x # xs \<Rightarrow> Inr (foldl fminimum x xs))"

definition np_max :: "matrix \<Rightarrow> error + npfloat" where
  "np_max X = (case concat X of [] \<Rightarrow> Inl ValueError | x # xs \<Rightarrow> Inr (foldl fmaximum x xs))"

text \<open>Array with scalar: \<open>X - s\<close>, \<open>X / s\<close>; and \<open>np.nan_to_num(X)\<close>.\<close>

definition m_sub_s :: "matrix \<Rightarrow> npfloat \<Rightarrow> matrix" where
  "m_sub_s X s = map (map (\<lambda>x. fsub x s)) X"

definition m_div_s :: "matrix \<Rightarrow> npfloat \<Rightarrow> matrix" where
  "m_div_s X s = map (map (\<lambda>x. fdiv x s)) X"

definition nan_to_num_m :: "matrix \<Rightarrow> matrix" where
  "nan_to_num_m X = map (map nan_to_num) X"

text \<open>
  Reductions along \<open>axis=0\<close>: one value per column.  \<open>np.mean\<close> is the column sum over
  the number of rows; \<open>np.std\<close> is the square root of the mean of the squared
  deviations from that mean.
\<close>

definition n_cols :: "matrix \<Rightarrow> nat" where
  "n_cols X = (case X of [] \<Rightarrow> 0 | r # rs \<Rightarrow> length r)"

definition column :: "nat \<Rightarrow> matrix \<Rightarrow> npfloat list" where
  "column j X = map (\<lambda>r. r ! j) X"

text \<open>
  The two statistics accumulate rounding errors over a column, and whether a constant
  column has standard deviation zero depends on them; so within \<open>np.mean\<close> and
  \<open>np.std\<close> every finite intermediate result goes through \<open>rnd\<close>, the rounding of a
  real to a \<open>float64\<close> (to an infinity on overflow), which is a parameter.  The sum
  along \<open>axis=0\<close> adds the rows one after the other, from the first.
\<close>

definition rounded :: "(real \<Rightarrow> npfloat) \<Rightarrow> npfloat \<Rightarrow> npfloat" where
  "rounded rnd a = (case a of Fin v \<Rightarrow> rnd v | _ \<Rightarrow> a)"

definition fsum :: "(real \<Rightarrow> npfloat) \<Rightarrow> npfloat list \<Rightarrow> npfloat" where
  "fsum rnd xs =
     (case xs of
        [] \<Rightarrow> Fin 0
      | x # ys \<Rightarrow> foldl (\<lambda>acc y. rounded rnd (fadd acc y)) x ys)"

definition mean_of :: "(real \<Rightarrow> npfloat) \<Rightarrow> npfloat list \<Rightarrow> npfloat" where
  "mean_of rnd xs = rounded rnd (fdiv (fsum rnd xs) (Fin (real (length xs))))"

definition std_of :: "(real \<Rightarrow> npfloat) \<Rightarrow> npfloat list \<Rightarrow> npfloat" where
  "std_of rnd xs =
     (let mu = mean_of rnd xs;
          sq = map (\<lambda>x. let d = rounded rnd (fsub x mu) in rounded rnd (fmul d d)) xs
      in rounded rnd (fsqrt (mean_of rnd sq)))"

definition np_mean0 :: "(real \<Rightarrow> npfloat) \<Rightarrow> matrix \<Rightarrow> npfloat list" where
  "np_mean0 rnd X = map (\<lambda>j. mean_of rnd (column j X)) [0..<n_cols X]"

definition np_std0 :: "(real \<Rightarrow> npfloat) \<Rightarrow> matrix \<Rightarrow> npfloat list" where
  "np_std0 rnd X = map (\<lambda>j. std_of rnd (column j X)) [0..<n_cols X]"

text \<open>
  The rounding of the machine: \<open>float64 x\<close> is the \<open>float64\<close> nearest to the real \<open>x\<close>,
  ties going to the even significand of 53 bits; below \<open>pow2 (- 1022)\<close> the spacing
  stays that of the lowest binade (gradual underflow), and a result beyond the largest
  finite value is an infinity.
\<close>

definition pow2 :: "int \<Rightarrow> real" where
  "pow2 e = (if 0 \<le> e then 2 ^ nat e else 1 / 2 ^ nat (- e))"

definition round_even :: "real \<Rightarrow> int" where
  "round_even x =
     (let f = \<lfloor>x\<rfloor>
      in if x - of_int f < 1 / 2 then f
         else if 1 / 2 < x - of_int f then f + 1
         else if even f then f else f + 1)"

definition float64 :: "real \<Rightarrow> npfloat" where
  "float64 x =
     (if x = 0 then Fin 0
      else let e = max \<lfloor>log 2 \<bar>x\<bar>\<rfloor> (- 1022);
               u = pow2 (e - 52);
               y = of_int (round_even (x / u)) * u
           in if float_max < \<bar>y\<bar> then (if 0 < x then PInf else NInf) else Fin y)"

text \<open>
  Array with a one-dimensional array, broadcast along the rows: the lengths must agree
  or one of them be 1 (which is then stretched), else \<open>ValueError\<close>.
\<close>

definition bcast_ok :: "npfloat list \<Rightarrow> npfloat list \<Rightarrow> bool" where
  "bcast_ok r v \<longleftrightarrow> length r = length v \<or> length v = 1 \<or> length r = 1"

definition bcast_row ::
  "(npfloat \<Rightarrow> npfloat \<Rightarrow> npfloat) \<Rightarrow> npfloat list \<Rightarrow> npfloat list \<Rightarrow> npfloat list" where
  "bcast_row f r v =
     (if length r = length v then map2 f r v
      else if length v = 1 then map (\<lambda>x. f x (v ! 0)) r
      else map (f (r ! 0)) v)"

definition m_bcast ::
  "(npfloat \<Rightarrow> npfloat \<Rightarrow> npfloat) \<Rightarrow> matrix \<Rightarrow> npfloat list \<Rightarrow> error + matrix" where
  "m_bcast f X v =
     (if list_all (\<lambda>r. bcast_ok r v) X then Inr (map (\<lambda>r. bcast_row f r v) X)
      else Inl ValueError)"

section \<open>The preprocessing transforms\<close>

text \<open>
  The regularization expression of the notebook,
  \<^verbatim>\<open>np.nan_to_num((X - np.min(train_X)) / (np.max(train_X) - np.min(train_X)))\<close>,
  as a function of the two statistics and of \<open>X\<close>; \<open>minmax_quot\<close> is the argument of
  \<open>np.nan_to_num\<close>.
\<close>

definition minmax_quot :: "npfloat \<Rightarrow> npfloat \<Rightarrow> matrix \<Rightarrow> matrix" where
  "minmax_quot mn mx X = m_div_s (m_sub_s X mn) (fsub mx mn)"

definition minmax_with :: "npfloat \<Rightarrow> npfloat \<Rightarrow> matrix \<Rightarrow> matrix" where
  "minmax_with mn mx X = nan_to_num_m (minmax_quot mn mx X)"

text \<open>
  The standardization expression,
  \<^verbatim>\<open>np.nan_to_num((X - np.mean(train_X, axis=0)) / np.std(train_X, axis=0))\<close>,
  as a function of the two per-feature statistics and of \<open>X\<close>.
\<close>

definition standardize_quot :: "npfloat list \<Rightarrow> npfloat list \<Rightarrow> matrix \<Rightarrow> error + matrix" where
  "standardize_quot mu sd X =
     (case m_bcast fsub X mu of
        Inl e \<Rightarrow> Inl e
      | Inr D \<Rightarrow> m_bcast fdiv D sd)"

definition standardize_with :: "npfloat list \<Rightarrow> npfloat list \<Rightarrow> matrix \<Rightarrow> error + matrix" where
  "standardize_with mu sd X =
     (case standardize_quot mu sd X of
        Inl e \<Rightarrow> Inl e
      | Inr Q \<Rightarrow> Inr (nan_to_num_m Q))"

text \<open>
  The two expressions with their statistics taken from a reference array (in the
  notebook always \<open>train_X\<close>), as the statements of the cell compute them.
\<close>

definition min_max_scale :: "matrix \<Rightarrow> matrix \<Rightarrow> error + matrix" where
  "min_max_scale X ref =
     (case np_min ref of Inl e \<Rightarrow> Inl e | Inr mn \<Rightarrow>
      case np_max ref of Inl e \<Rightarrow> Inl e | Inr mx \<Rightarrow>
      Inr (minmax_with mn mx X))"

definition standardize :: "(real \<Rightarrow> npfloat) \<Rightarrow> matrix \<Rightarrow> matrix \<Rightarrow> error + matrix" where
  "standardize rnd X ref = standardize_with (np_mean0 rnd ref) (np_std0 rnd ref) X"

text \<open>
  The preprocessing cell: the six arrays it binds, computed from \<open>train_X\<close> and
  \<open>test_X\<close> in the order of its statements; the first exception ends it.
\<close>

record preprocessed =
  train_X_base :: matrix
  test_X_base :: matrix
  train_X_norm :: matrix
  test_X_norm :: matrix
  train_X_std :: matrix
  test_X_std :: matrix

definition preprocess :: "(real \<Rightarrow> npfloat) \<Rightarrow> matrix \<Rightarrow> matrix \<Rightarrow> error + preprocessed" where
  "preprocess rnd train_X test_X =
     (case min_max_scale train_X train_X of Inl e \<Rightarrow> Inl e | Inr trn \<Rightarrow>
      case min_max_scale test_X train_X of Inl e \<Rightarrow> Inl e | Inr ten \<Rightarrow>
      case standardize rnd train_X train_X of Inl e \<Rightarrow> Inl e | Inr trs \<Rightarrow>
      case standardize rnd test_X train_X of Inl e \<Rightarrow> Inl e | Inr tes \<Rightarrow>
      Inr \<lparr> train_X_base = train_X, test_X_base = test_X,
            train_X_norm = trn, test_X_norm = ten,
            train_X_std = trs, test_X_std = tes \<rparr>)"

text \<open>An array of \<open>k\<close> columns: every row has \<open>k\<close> entries.\<close>

definition is_matrix :: "nat \<Rightarrow> matrix \<Rightarrow> bool" where
  "is_matrix k X \<longleftrightarrow> list_all (\<lambda>r. length r = k) X"

text \<open>
  The order of the entries that are not NaN, and the entries that are a finite value of
  the unit interval.
\<close>

fun fle :: "npfloat \<Rightarrow> npfloat \<Rightarrow> bool" where
  "fle (Fin x) (Fin y) = (x \<le> y)"
| "fle NaN b = False"
| "fle a NaN = False"
| "fle NInf b = True"
| "fle a PInf = True"
| "fle a b = False"

definition in_unit :: "npfloat \<Rightarrow> bool" where
  "in_unit a \<longleftrightarrow> (case a of Fin v \<Rightarrow> 0 \<le> v \<and> v \<le> 1 | _ \<Rightarrow> False)"

text \<open>
  One row of the standardization expression when the row and the two statistics have
  the same length (no stretching).
\<close>

definition std_row :: "npfloat list \<Rightarrow> npfloat list \<Rightarrow> npfloat list \<Rightarrow> npfloat list" where
  "std_row mu sd r = map nan_to_num (map2 fdiv (map2 fsub r mu) sd)"

text \<open>
  What either transform does to one entry when its statistics are finite: with \<open>m\<close> the
  minimum (or the mean of the feature) and \<open>d\<close> the range \<open>max - min\<close> (or the standard
  deviation of the feature).
\<close>

definition rescale :: "real \<Rightarrow> real \<Rightarrow> npfloat \<Rightarrow> npfloat" where
  "rescale m d x = nan_to_num (fdiv (fsub x (Fin m)) (Fin d))"

section \<open>Shuffling and splitting the dataset\<close>

text \<open>
  \<open>sklearn.utils.shuffle(features, labels, random_state=0)\<close> checks that the arrays have
  the same number of rows (\<open>ValueError\<close> otherwise), lets a generator seeded with
  \<open>random_state\<close> shuffle \<open>np.arange(n)\<close>, and indexes every array with the result (an
  index out of range would be an \<open>IndexError\<close>).  The generator is a parameter:
  \<open>rng seed n\<close> is the order in which the generator seeded with \<open>seed\<close> leaves
  \<open>np.arange(n)\<close>.
\<close>

definition shuffle ::
  "(int \<Rightarrow> nat \<Rightarrow> nat list) \<Rightarrow> int \<Rightarrow> 'a list \<Rightarrow> 'b list \<Rightarrow> error + ('a list \<times> 'b list)" where
  "shuffle rng random_state xs ys =
     (if length xs \<noteq> length ys then Inl ValueError
      else let indices = rng random_state (length xs)
           in if list_all (\<lambda>i. i < length xs) indices
              then Inr (map (\<lambda>i. xs ! i) indices, map (\<lambda>i. ys ! i) indices)
              else Inl IndexError)"

text \<open>\<open>split = math.floor(len(labels) * 0.75)\<close>; the factor 0.75 is exact in binary.\<close>

definition split_point :: "nat \<Rightarrow> nat" where
  "split_point n = nat \<lfloor>(of_nat n :: rat) * (3 / 4)\<rfloor>"

text \<open>
  The shuffle with \<open>random_state=0\<close> followed by the positional split:
  \<open>((train_X, train_y), (test_X, test_y))\<close>.
\<close>

definition train_test_split ::
  "(int \<Rightarrow> nat \<Rightarrow> nat list) \<Rightarrow> 'a list \<Rightarrow> 'b list \<Rightarrow>
   error + (('a list \<times> 'b list) \<times> ('a list \<times> 'b list))" where
  "train_test_split rng features labels =
     (case shuffle rng 0 features labels of
        Inl e \<Rightarrow> Inl e
      | Inr (fs, ls) \<Rightarrow>
          (let split = split_point (length ls)
           in Inr ((take split fs, take split ls), (drop split fs, drop split ls))))"

section \<open>The preprocessing cell on a store of arrays\<close>

text \<open>
  To speak about which arrays a statement writes, arrays live in a store: \<open>arrays s a\<close>
  is the array at address \<open>a\<close>, and the addresses below \<open>lim s\<close> are in use.  A
  statement is a function from the store to its result (or exception) and the store it
  leaves.
\<close>

record store =
  arrays :: "nat \<Rightarrow> matrix"
  lim :: nat

type_synonym 'a prog = "store \<Rightarrow> (error + 'a) \<times> store"

definition ret :: "'a \<Rightarrow> 'a prog" where
  "ret x s = (Inr x, s)"

definition bind :: "'a prog \<Rightarrow> ('a \<Rightarrow> 'b prog) \<Rightarrow> 'b prog" where
  "bind m f s = (case m s of (Inl e, s') \<Rightarrow> (Inl e, s') | (Inr x, s') \<Rightarrow> f x s')"

definition new_array :: "matrix \<Rightarrow> nat prog" where
  "new_array m s = (Inr (lim s), s\<lparr>arrays := (arrays s)(lim s := m), lim := Suc (lim s)\<rparr>)"

text \<open>
  The numpy operations of the cell, on addresses.  \<open>np.copy\<close>, the binary operators
  \<open>-\<close> and \<open>/\<close> and \<open>np.nan_to_num\<close> each return a newly allocated array; the
  reductions return a scalar or a one-dimensional array and allocate nothing in the
  store.  The cell uses no in-place operator.
\<close>

definition arr_copy :: "nat \<Rightarrow> nat prog" where
  "arr_copy a s = new_array (arrays s a) s"

definition arr_sub_scalar :: "nat \<Rightarrow> npfloat \<Rightarrow> nat prog" where
  "arr_sub_scalar a x s = new_array (m_sub_s (arrays s a) x) s"

definition arr_div_scalar :: "nat \<Rightarrow> npfloat \<Rightarrow> nat prog" where
  "arr_div_scalar a x s = new_array (m_div_s (arrays s a) x) s"

definition arr_nan_to_num :: "nat \<Rightarrow> nat prog" where
  "arr_nan_to_num a s = new_array (nan_to_num_m (arrays s a)) s"

definition arr_min :: "nat \<Rightarrow> npfloat prog" where
  "arr_min a s = (np_min (arrays s a), s)"

definition arr_max :: "nat \<Rightarrow> npfloat prog" where
  "arr_max a s = (np_max (arrays s a), s)"

definition arr_mean0 :: "(real \<Rightarrow> npfloat) \<Rightarrow> nat \<Rightarrow> npfloat list prog" where
  "arr_mean0 rnd a s = (Inr (np_mean0 rnd (arrays s a)), s)"

definition arr_std0 :: "(real \<Rightarrow> npfloat) \<Rightarrow> nat \<Rightarrow> npfloat list prog" where
  "arr_std0 rnd a s = (Inr (np_std0 rnd (arrays s a)), s)"

definition arr_bcast :: "(npfloat \<Rightarrow> npfloat \<Rightarrow> npfloat) \<Rightarrow> nat \<Rightarrow> npfloat list \<Rightarrow> nat prog" where
  "arr_bcast f a v s =
     (case m_bcast f (arrays s a) v of Inl e \<Rightarrow> (Inl e, s) | Inr m \<Rightarrow> new_array m s)"

text \<open>
  For contrast, an in-place operator, as \<open>X_train /= 255\<close> in \<open>data()\<close> of the search
  notebook: the quotient is written to the address of its left operand and nothing is
  allocated.
\<close>

definition arr_idiv_scalar :: "nat \<Rightarrow> npfloat \<Rightarrow> nat prog" where
  "arr_idiv_scalar a x s = (Inr a, s\<lparr>arrays := (arrays s)(a := m_div_s (arrays s a) x)\<rparr>)"

text \<open>
  The statements of the cell.  \<open>norm_stmt x train_X\<close> is
  \<^verbatim>\<open>np.nan_to_num((x - np.min(train_X)) / (np.max(train_X) - np.min(train_X)))\<close> and
  \<open>std_stmt rnd x train_X\<close> is
  \<^verbatim>\<open>np.nan_to_num((x - np.mean(train_X, axis=0)) / np.std(train_X, axis=0))\<close>, in
  Python's order of evaluation; the cell binds six names to the addresses returned.
\<close>

record cell_refs =
  ref_train_X_base :: nat
  ref_test_X_base :: nat
  ref_train_X_norm :: nat
  ref_test_X_norm :: nat
  ref_train_X_std :: nat
  ref_test_X_std :: nat

definition norm_stmt :: "nat \<Rightarrow> nat \<Rightarrow> nat prog" where
  "norm_stmt x train_X =
     bind (arr_min train_X) (\<lambda>mn.
     bind (arr_sub_scalar x mn) (\<lambda>t1.
     bind (arr_max train_X) (\<lambda>mx.
     bind (arr_min train_X) (\<lambda>mn'.
     bind (arr_div_scalar t1 (fsub mx mn')) (\<lambda>t2.
     arr_nan_to_num t2)))))"

definition std_stmt :: "(real \<Rightarrow> npfloat) \<Rightarrow> nat \<Rightarrow> nat \<Rightarrow> nat prog" where
  "std_stmt rnd x train_X =
     bind (arr_mean0 rnd train_X) (\<lambda>mu.
     bind (arr_bcast fsub x mu) (\<lambda>t1.
     bind (arr_std0 rnd train_X) (\<lambda>sd.
     bind (arr_bcast fdiv t1 sd) (\<lambda>t2.
     arr_nan_to_num t2))))"

definition preprocessing_cell :: "(real \<Rightarrow> npfloat) \<Rightarrow> nat \<Rightarrow> nat \<Rightarrow> cell_refs prog" where
  "preprocessing_cell rnd train_X test_X =
     bind (arr_copy train_X) (\<lambda>trb.
     bind (arr_copy test_X) (\<lambda>teb.
     bind (norm_stmt train_X train_X) (\<lambda>trn.
     bind (norm_stmt test_X train_X) (\<lambda>ten.
     bind (arr_copy train_X) (\<lambda>trc.
     bind (arr_copy test_X) (\<lambda>tec.
     bind (std_stmt rnd trc train_X) (\<lambda>trs.
     bind (std_stmt rnd tec train_X) (\<lambda>tes.
     ret \<lparr> ref_train_X_base = trb, ref_test_X_base = teb,
           ref_train_X_norm = trn, ref_test_X_norm = ten,
           ref_train_X_std = trs, ref_test_X_std = tes \<rparr>))))))))"

text \<open>
  A statement respects the frame when it leaves every array in use where it was and as
  it was.
\<close>

definition frame :: "'a prog \<Rightarrow> bool" where
  "frame m \<longleftrightarrow> (\<forall>s. lim s \<le> lim (snd (m s)) \<and> (\<forall>a < lim s. arrays (snd (m s)) a = arrays s a))"

definition example_store :: store where
  "example_store =
     \<lparr> arrays = (\<lambda>c. if c = 0 then [[Fin 0], [Fin 2]] else [[Fin 3]]), lim = 2 \<rparr>"

section \<open>Results about labels\<close>

lemma argmax_from_le: "\<forall>x \<in> set xs. x \<le> b \<Longrightarrow> argmax_from b bi i xs = bi"
  by (induction xs arbitrary: i) auto

lemma argmax_from_one_hot:
  "c < n \<Longrightarrow> argmax_from (0::int) bi i ((replicate n 0)[c := 1]) = i + c"
proof (induction n arbitrary: c i)
  case 0
  then show ?case by simp
next
  case (Suc n)
  show ?case
  proof (cases c)
    case 0
    have "argmax_from (1::int) i (Suc i) (replicate n 0) = i"
      by (rule argmax_from_le) simp
    with 0 show ?thesis by simp
  next
    case (Suc c')
    with Suc.prems have "c' < n" by simp
    from Suc.IH [OF this] Suc show ?thesis by simp
  qed
qed

lemma np_argmax_one_hot: "c < n \<Longrightarrow> np_argmax (one_hot n c) = Inr c"
proof (cases n)
  case 0
  assume "c < n"
  with 0 show ?thesis by simp
next
  case (Suc m)
  assume lt: "c < n"
  show ?thesis
  proof (cases c)
    case 0
    have "argmax_from (1::int) 0 1 (replicate m 0) = 0"
      by (rule argmax_from_le) simp
    with 0 Suc show ?thesis by (simp add: one_hot_def)
  next
    case c: (Suc c')
    with lt Suc have "c' < m" by simp
    from argmax_from_one_hot [OF this, of 0 1] c Suc show ?thesis
      by (simp add: one_hot_def)
  qed
qed

lemma label_2_int_nth:
  "distinct u \<Longrightarrow> i < length u \<Longrightarrow> label_2_int u (u ! i) = Some i"
  unfolding label_2_int_def
  using map_of_zip_nth [of u "[0..<length u]" i] by simp

lemma label_2_int_Some:
  assumes "distinct u" "l \<in> set u"
  shows "\<exists>i < length u. label_2_int u l = Some i \<and> u ! i = l"
proof -
  from assms(2) obtain i where "i < length u" "u ! i = l" by (auto simp: in_set_conv_nth)
  with label_2_int_nth [OF assms(1), of i] show ?thesis by auto
qed

lemma lookup_all_ok:
  assumes "distinct u" "set ls \<subseteq> set u"
  shows "\<exists>cs. lookup_all (label_2_int u) ls = Inr cs \<and> length cs = length ls \<and>
              (\<forall>k < length ls. cs ! k < length u \<and> u ! (cs ! k) = ls ! k)"
  using assms(2)
proof (induction ls)
  case Nil
  then show ?case by simp
next
  case (Cons l ls)
  then obtain cs where cs: "lookup_all (label_2_int u) ls = Inr cs" "length cs = length ls"
    "\<forall>k < length ls. cs ! k < length u \<and> u ! (cs ! k) = ls ! k" by auto
  from Cons.prems label_2_int_Some [OF assms(1), of l]
  obtain i where i: "i < length u" "label_2_int u l = Some i" "u ! i = l" by auto
  have "\<forall>k < length (l # ls). (i # cs) ! k < length u \<and> u ! ((i # cs) ! k) = (l # ls) ! k"
    using cs(3) i by (auto simp: nth_Cons split: nat.splits)
  with cs i show ?case by simp
qed

lemma encode_labels_width:
  assumes u: "distinct uniq_labels" "set uniq_labels = set labels" and ne: "labels \<noteq> []"
  shows "\<exists>Y. encode_labels uniq_labels labels = Inr Y \<and> length Y = length labels \<and>
             list_all (\<lambda>row. length row = num_labels labels) Y"
proof -
  from u(2) have sub: "set labels \<subseteq> set uniq_labels" by simp
  from lookup_all_ok [OF u(1) sub]
  obtain cs where cs: "lookup_all (label_2_int uniq_labels) labels = Inr cs"
    "length cs = length labels"
    "\<forall>k < length labels. cs ! k < length uniq_labels \<and> uniq_labels ! (cs ! k) = labels ! k"
    by blast
  from ne cs(2) have cne: "cs \<noteq> []" by (cases cs) simp_all
  have n: "num_labels labels = length uniq_labels"
    unfolding num_labels_def u(2) [symmetric] by (rule distinct_card [OF u(1)])
  have lt: "\<forall>c \<in> set cs. c < length uniq_labels"
    using cs(2,3) by (auto simp: in_set_conv_nth)
  from ne u(2) have une: "uniq_labels \<noteq> []" by (metis set_empty)
  have top: "length uniq_labels - 1 \<in> set cs"
  proof -
    from une have "last uniq_labels \<in> set uniq_labels" by simp
    with u(2) have "last uniq_labels \<in> set labels" by simp
    then obtain k where k: "k < length labels" "labels ! k = last uniq_labels"
      unfolding in_set_conv_nth by blast
    with cs(3) have "cs ! k < length uniq_labels" "uniq_labels ! (cs ! k) = last uniq_labels"
      by simp_all
    with u(1) une have "cs ! k = length uniq_labels - 1"
      by (simp add: last_conv_nth nth_eq_iff_index_eq)
    moreover from k(1) cs(2) have "cs ! k \<in> set cs" by simp
    ultimately show ?thesis by simp
  qed
  have "Max (set cs) = length uniq_labels - 1"
  proof (intro Max_eqI)
    show "finite (set cs)" by simp
    show "y \<le> length uniq_labels - 1" if "y \<in> set cs" for y
      using lt that by fastforce
    show "length uniq_labels - 1 \<in> set cs" by (rule top)
  qed
  moreover from une have "0 < length uniq_labels" by simp
  ultimately have mx: "Suc (Max (set cs)) = length uniq_labels" by simp
  have "to_categorical cs None = Inr (map (one_hot (length uniq_labels)) cs)"
    using cne lt by (simp add: to_categorical_def mx)
  with cs(1,2) n show ?thesis
    by (simp add: encode_labels_def list_all_iff one_hot_def)
qed

text \<open>
  C10.  One-hot round trip: whenever \<open>to_categorical\<close> encodes a list of class indices
  (with the class count given or defaulted), the argmax of every encoded row is the
  class index it was made from; and it does encode every non-empty list whose indices
  are in range.
\<close>

theorem one_hot_argmax_roundtrip:
  "(to_categorical y nb = Inr Y \<longrightarrow> map np_argmax Y = map Inr y) \<and>
   (y \<noteq> [] \<longrightarrow> (\<exists>Y. to_categorical y None = Inr Y)) \<and>
   (0 < n \<and> (\<forall>c \<in> set y. c < n) \<longrightarrow> to_categorical y (Some n) = Inr (map (one_hot n) y))"
proof (intro conjI impI)
  assume enc: "to_categorical y nb = Inr Y"
  then obtain n where Y: "Y = map (one_hot n) y" and lt: "\<forall>c \<in> set y. c < n"
    unfolding to_categorical_def
    by (auto split: option.splits if_splits sum.splits)
  show "map np_argmax Y = map Inr y"
    unfolding Y using lt by (simp add: np_argmax_one_hot)
next
  assume ne: "y \<noteq> []"
  have "\<forall>c \<in> set y. c < Max (set y) + 1"
    by (simp add: less_Suc_eq_le)
  with ne show "\<exists>Y. to_categorical y None = Inr Y"
    unfolding to_categorical_def by simp
next
  assume "0 < n \<and> (\<forall>c \<in> set y. c < n)"
  then show "to_categorical y (Some n) = Inr (map (one_hot n) y)"
    unfolding to_categorical_def by simp
qed

theorem one_hot_argmax_roundtrip_witness:
  "to_categorical [2, 0, 1] None = Inr [[0, 0, 1], [1, 0, 0], [0, 1, 0]] \<and>
   map np_argmax [[0, 0, 1], [1, 0, 0], [0, 1, 0 :: int]] = map Inr [2, 0, 1]"
proof -
  have enc: "to_categorical [2, 0, 1] None = Inr [[0, 0, 1], [1, 0, 0], [0, 1, 0]]"
    by (simp add: to_categorical_def one_hot_def)
  from one_hot_argmax_roundtrip [of "[2, 0, 1]" None "[[0, 0, 1], [1, 0, 0], [0, 1, 0]]"] enc
  show ?thesis by blast
qed

section \<open>Results about the trial-history save\<close>

text \<open>
  C1.  The claim is that a failing save is caught and its message printed.  In the
  namespace of the notebook the name after \<open>except\<close> is unbound: whatever exception the
  save raises, nothing is printed and the statement ends with a \<open>NameError\<close>.
\<close>

theorem save_trials_name_error:
  "save_trials notebook_namespace (Inl x) = \<lparr> printed = [], result = Inl (NameError ''e'') \<rparr>"
  by (simp add: save_trials_def notebook_namespace_def notebook_names_def)

section \<open>Results about the model factory\<close>

text \<open>
  C8, as stated, fails: a dataset with two distinct labels has one-hot labels of two
  columns and still gets an output layer of 18 units.
\<close>

theorem get_model_softmax_units_counterexample:
  "encode_labels [''Fire'', ''Grass''] [''Grass'', ''Fire'', ''Grass'']
     = Inr [[0, 1], [1, 0], [0, 1]] \<and>
   num_labels [''Grass'', ''Fire'', ''Grass''] = 2 \<and>
   softmax_units (layers (get_model 6)) = Some 18 \<and>
   softmax_units (layers (get_model 6)) \<noteq> Some (num_labels [''Grass'', ''Fire'', ''Grass''])"
proof -
  have n: "num_labels [''Grass'', ''Fire'', ''Grass''] = 2"
    unfolding num_labels_def card_set by simp
  have e: "encode_labels [''Fire'', ''Grass''] [''Grass'', ''Fire'', ''Grass'']
     = Inr [[0, 1], [1, 0], [0, 1]]"
    by (simp add: encode_labels_def label_2_int_def to_categorical_def one_hot_def)
  show ?thesis unfolding n e by (simp add: get_model_def)
qed

text \<open>
  C8, amended.  The softmax output layer of \<open>get_model\<close> has 18 units whatever its
  argument and whatever the labels; it has as many units as there are distinct labels
  exactly when there are 18 of them.  (The number of distinct labels is the width of
  the one-hot label array, whatever order the set of labels was listed in.)
\<close>

theorem get_model_softmax_units:
  "softmax_units (layers (get_model num_inputs)) = Some 18 \<and>
   (softmax_units (layers (get_model num_inputs)) = Some (num_labels labels)
      \<longleftrightarrow> num_labels labels = 18) \<and>
   (distinct uniq_labels \<and> set uniq_labels = set labels \<and> labels \<noteq> [] \<longrightarrow>
      (\<exists>Y. encode_labels uniq_labels labels = Inr Y \<and> length Y = length labels \<and>
           list_all (\<lambda>row. length row = num_labels labels) Y))"
proof (intro conjI impI)
  show "softmax_units (layers (get_model num_inputs)) = Some 18"
    by (simp add: get_model_def)
  show "softmax_units (layers (get_model num_inputs)) = Some (num_labels labels)
      \<longleftrightarrow> num_labels labels = 18"
    by (auto simp add: get_model_def)
next
  assume "distinct uniq_labels \<and> set uniq_labels = set labels \<and> labels \<noteq> []"
  then show "\<exists>Y. encode_labels uniq_labels labels = Inr Y \<and> length Y = length labels \<and>
           list_all (\<lambda>row. length row = num_labels labels) Y"
    using encode_labels_width [of uniq_labels labels] by blast
qed

theorem get_model_softmax_units_witness:
  "distinct [''Fire'', ''Grass''] \<and>
   set [''Fire'', ''Grass''] = set [''Grass'', ''Fire'', ''Grass''] \<and>
   [''Grass'', ''Fire'', ''Grass''] \<noteq> [] \<and>
   softmax_units (layers (get_model 6)) = Some 18 \<and>
   (\<exists>Y. encode_labels [''Fire'', ''Grass''] [''Grass'', ''Fire'', ''Grass''] = Inr Y \<and>
        length Y = 3 \<and>
        list_all (\<lambda>row. length row = num_labels [''Grass'', ''Fire'', ''Grass'']) Y)"
proof -
  have h: "distinct [''Fire'', ''Grass'']"
    "set [''Fire'', ''Grass''] = set [''Grass'', ''Fire'', ''Grass'']"
    "[''Grass'', ''Fire'', ''Grass''] \<noteq> []"
    by auto
  from get_model_softmax_units [of 6 "[''Grass'', ''Fire'', ''Grass'']" "[''Fire'', ''Grass'']"] h
  show ?thesis by (simp add: numeral_3_eq_3)
qed

section \<open>Results about min-max scaling\<close>

lemma foldl_fminimum_NaN: "foldl fminimum NaN xs = NaN"
  by (induction xs) auto

lemma fminimum_NaN_right: "fminimum a NaN = NaN"
  by (cases a) auto

lemma foldl_fminimum_has_NaN: "NaN \<in> set xs \<Longrightarrow> foldl fminimum a xs = NaN"
  by (induction xs arbitrary: a) (auto simp: foldl_fminimum_NaN fminimum_NaN_right)

lemma foldl_fmaximum_NaN: "foldl fmaximum NaN xs = NaN"
  by (induction xs) auto

lemma fmaximum_NaN_right: "fmaximum a NaN = NaN"
  by (cases a) auto

lemma foldl_fmaximum_has_NaN: "NaN \<in> set xs \<Longrightarrow> foldl fmaximum a xs = NaN"
  by (induction xs arbitrary: a) (auto simp: foldl_fmaximum_NaN fmaximum_NaN_right)

lemma fle_refl: "a \<noteq> NaN \<Longrightarrow> fle a a"
  by (cases a) auto

lemma fle_trans: "fle a b \<Longrightarrow> fle b c \<Longrightarrow> fle a c"
  by (cases a; cases b; cases c) auto

lemma fminimum_fle: "a \<noteq> NaN \<Longrightarrow> b \<noteq> NaN \<Longrightarrow>
   fminimum a b \<noteq> NaN \<and> fle (fminimum a b) a \<and> fle (fminimum a b) b"
  by (cases a; cases b) auto

lemma fmaximum_fle: "a \<noteq> NaN \<Longrightarrow> b \<noteq> NaN \<Longrightarrow>
   fmaximum a b \<noteq> NaN \<and> fle a (fmaximum a b) \<and> fle b (fmaximum a b)"
  by (cases a; cases b) auto

lemma foldl_fminimum_lower:
  "a \<noteq> NaN \<Longrightarrow> NaN \<notin> set xs \<Longrightarrow>
   foldl fminimum a xs \<noteq> NaN \<and> (\<forall>y \<in> set (a # xs). fle (foldl fminimum a xs) y)"
proof (induction xs arbitrary: a)
  case Nil
  then show ?case by (simp add: fle_refl)
next
  case (Cons x xs)
  from Cons.prems have x: "x \<noteq> NaN" and xs: "NaN \<notin> set xs" by auto
  from fminimum_fle [OF Cons.prems(1) x]
  have m: "fminimum a x \<noteq> NaN" "fle (fminimum a x) a" "fle (fminimum a x) x" by auto
  from Cons.IH [OF m(1) xs]
  have ih: "foldl fminimum (fminimum a x) xs \<noteq> NaN"
    "\<forall>y \<in> set (fminimum a x # xs). fle (foldl fminimum (fminimum a x) xs) y" by auto
  then have "fle (foldl fminimum (fminimum a x) xs) (fminimum a x)" by simp
  with m have "fle (foldl fminimum (fminimum a x) xs) a" "fle (foldl fminimum (fminimum a x) xs) x"
    by (blast intro: fle_trans)+
  with ih show ?case by simp
qed

lemma foldl_fmaximum_upper:
  "a \<noteq> NaN \<Longrightarrow> NaN \<notin> set xs \<Longrightarrow>
   foldl fmaximum a xs \<noteq> NaN \<and> (\<forall>y \<in> set (a # xs). fle y (foldl fmaximum a xs))"
proof (induction xs arbitrary: a)
  case Nil
  then show ?case by (simp add: fle_refl)
next
  case (Cons x xs)
  from Cons.prems have x: "x \<noteq> NaN" and xs: "NaN \<notin> set xs" by auto
  from fmaximum_fle [OF Cons.prems(1) x]
  have m: "fmaximum a x \<noteq> NaN" "fle a (fmaximum a x)" "fle x (fmaximum a x)" by auto
  from Cons.IH [OF m(1) xs]
  have ih: "foldl fmaximum (fmaximum a x) xs \<noteq> NaN"
    "\<forall>y \<in> set (fmaximum a x # xs). fle y (foldl fmaximum (fmaximum a x) xs)" by auto
  then have "fle (fmaximum a x) (foldl fmaximum (fmaximum a x) xs)" by simp
  with m have "fle a (foldl fmaximum (fmaximum a x) xs)" "fle x (foldl fmaximum (fmaximum a x) xs)"
    by (blast intro: fle_trans)+
  with ih show ?case by simp
qed

lemma scale_entry_NaN_stat: "in_unit (nan_to_num (fdiv (fsub x NaN) (fsub mx NaN)))"
  by (cases x) (auto simp: in_unit_def)

lemma scale_entry_between:
  "fle mn x \<Longrightarrow> fle x mx \<Longrightarrow> in_unit (nan_to_num (fdiv (fsub x mn) (fsub mx mn)))"
  by (cases mn; cases x; cases mx) (auto simp: in_unit_def divide_le_eq)


lemma min_max_scale_entries:
  "np_min ref = Inr mn \<Longrightarrow> np_max ref = Inr mx \<Longrightarrow>
   min_max_scale X ref = Inr (map (map (\<lambda>x. nan_to_num (fdiv (fsub x mn) (fsub mx mn)))) X)"
  by (simp add: min_max_scale_def minmax_with_def minmax_quot_def m_sub_s_def m_div_s_def
      nan_to_num_m_def comp_def)

text \<open>
  C6.  Scaling an array by its own global minimum and maximum: an array without
  entries raises \<open>ValueError\<close> (from \<open>np.min\<close>); any other array is scaled, and every
  entry of the result is a finite value between 0 and 1.
\<close>

theorem min_max_scale_self_unit_interval:
  "(concat X = [] \<longrightarrow> min_max_scale X X = Inl ValueError) \<and>
   (concat X \<noteq> [] \<longrightarrow>
      (\<exists>Y. min_max_scale X X = Inr Y \<and>
           (\<forall>r \<in> set Y. \<forall>y \<in> set r. \<exists>v. y = Fin v \<and> 0 \<le> v \<and> v \<le> 1)))"
proof (intro conjI impI)
  assume "concat X = []"
  then show "min_max_scale X X = Inl ValueError"
    by (simp add: min_max_scale_def np_min_def del: concat_eq_Nil_conv)
next
  assume "concat X \<noteq> []"
  then obtain a as where cs: "concat X = a # as" by (cases "concat X") auto
  define mn where "mn = foldl fminimum a as"
  define mx where "mx = foldl fmaximum a as"
  have mn: "np_min X = Inr mn" and mx: "np_max X = Inr mx"
    by (simp_all add: np_min_def np_max_def cs mn_def mx_def)
  have entry: "in_unit (nan_to_num (fdiv (fsub x mn) (fsub mx mn)))" if "x \<in> set (a # as)" for x
  proof (cases "NaN \<in> set (a # as)")
    case True
    then have "mn = NaN"
      by (cases "a = NaN") (auto simp: mn_def foldl_fminimum_NaN foldl_fminimum_has_NaN)
    then show ?thesis by (simp add: scale_entry_NaN_stat)
  next
    case False
    then have a: "a \<noteq> NaN" and as: "NaN \<notin> set as" by auto
    from foldl_fminimum_lower [OF a as] that have "fle mn x" by (auto simp add: mn_def)
    moreover from foldl_fmaximum_upper [OF a as] that have "fle x mx" by (auto simp add: mx_def)
    ultimately show ?thesis by (rule scale_entry_between)
  qed
  have "\<exists>v. y = Fin v \<and> 0 \<le> v \<and> v \<le> 1"
    if "r \<in> set (map (map (\<lambda>x. nan_to_num (fdiv (fsub x mn) (fsub mx mn)))) X)" "y \<in> set r" for r y
  proof -
    from that obtain r' x where "r' \<in> set X" "x \<in> set r'"
      and y: "y = nan_to_num (fdiv (fsub x mn) (fsub mx mn))" by auto
    then have "x \<in> set (concat X)" by auto
    with entry [of x] cs have "in_unit y" by (simp add: y)
    then show ?thesis by (cases y) (auto simp: in_unit_def)
  qed
  with min_max_scale_entries [OF mn mx, of X]
  show "\<exists>Y. min_max_scale X X = Inr Y \<and>
           (\<forall>r \<in> set Y. \<forall>y \<in> set r. \<exists>v. y = Fin v \<and> 0 \<le> v \<and> v \<le> 1)"
    by blast
qed

theorem min_max_scale_self_unit_interval_witness:
  "concat [[Fin 0, Fin 10], [Fin 5, Fin 5], [Fin 10, Fin 0]] \<noteq> [] \<and>
   min_max_scale [[Fin 0, Fin 10], [Fin 5, Fin 5], [Fin 10, Fin 0]]
                 [[Fin 0, Fin 10], [Fin 5, Fin 5], [Fin 10, Fin 0]]
     = Inr [[Fin 0, Fin 1], [Fin (1/2), Fin (1/2)], [Fin 1, Fin 0]] \<and>
   list_all (list_all in_unit) [[Fin 0, Fin 1], [Fin (1/2), Fin (1/2)], [Fin 1, Fin 0]]"
proof -
  let ?X = "[[Fin 0, Fin 10], [Fin 5, Fin 5], [Fin 10, Fin 0]]"
  have ev: "min_max_scale ?X ?X = Inr [[Fin 0, Fin 1], [Fin (1/2), Fin (1/2)], [Fin 1, Fin 0]]"
    by (simp add: min_max_scale_def np_min_def np_max_def minmax_with_def minmax_quot_def
        m_sub_s_def m_div_s_def nan_to_num_m_def)
  from min_max_scale_self_unit_interval [of ?X] ev show ?thesis
    by (simp add: in_unit_def)
qed

section \<open>Results about rounding\<close>

text \<open>
  The value of \<open>float64\<close> in a binade, and its values on the numbers that the examples
  below run through: small integers, which are exact, and the sums, the mean and the
  deviations of a column of three entries 0.1 (the \<open>float64\<close> nearest to one tenth is
  \<open>3602879701896397 / 2 ^ 55\<close>).
\<close>

lemma pow2_powr: "pow2 e = 2 powr (of_int e)"
  by (simp add: pow2_def powr_real_of_int inverse_eq_divide)

lemma floor_log2:
  assumes "pow2 e \<le> x" "x < pow2 (e + 1)"
  shows "\<lfloor>log 2 x\<rfloor> = e"
proof -
  have "0 < pow2 e" by (simp add: pow2_def)
  with assms(1) have "0 < x" by simp
  from floor_log_eq_powr_iff [OF this, of 2 e] assms show ?thesis
    by (simp add: pow2_powr)
qed

lemma float64_binade:
  assumes "pow2 e \<le> \<bar>x\<bar>" "\<bar>x\<bar> < pow2 (e + 1)" "- 1022 \<le> e"
    and "\<bar>of_int (round_even (x / pow2 (e - 52))) * pow2 (e - 52)\<bar> \<le> float_max"
  shows "float64 x = Fin (of_int (round_even (x / pow2 (e - 52))) * pow2 (e - 52))"
proof -
  have "0 < pow2 e" by (simp add: pow2_def)
  with assms(1) have nz: "x \<noteq> 0" by auto
  from floor_log2 [OF assms(1,2)] assms(3) have "max \<lfloor>log 2 \<bar>x\<bar>\<rfloor> (- 1022) = e" by simp
  with nz assms(4) show ?thesis
    by (simp add: float64_def Let_def)
qed

lemma float64_tenth_twice: "float64 (3602879701896397 / 2 ^ 55 + 3602879701896397 / 2 ^ 55) = Fin (3602879701896397 / 2 ^ 54)"
  by (subst float64_binade [where e = "-3"]) (simp_all add: pow2_def round_even_def float_max_def)

lemma float64_tenth_thrice: "float64 (3602879701896397 / 2 ^ 54 + 3602879701896397 / 2 ^ 55) = Fin (5404319552844596 / 2 ^ 54)"
  by (subst float64_binade [where e = "-2"]) (simp_all add: pow2_def round_even_def float_max_def)

lemma float64_tenth_mean: "float64 (5404319552844596 / 2 ^ 54 / 3) = Fin (7205759403792795 / 2 ^ 56)"
  by (subst float64_binade [where e = "-4"]) (simp_all add: pow2_def round_even_def float_max_def)



lemma float64_tenth_deviation: "float64 (- (1 / 2 ^ 56)) = Fin (- (1 / 2 ^ 56))"
  by (subst float64_binade [where e = "-56"]) (simp_all add: pow2_def round_even_def float_max_def)

lemma float64_tenth_square: "float64 (1 / 2 ^ 112) = Fin (1 / 2 ^ 112)"
  by (subst float64_binade [where e = "-112"]) (simp_all add: pow2_def round_even_def float_max_def)

lemma float64_tenth_squares_two: "float64 (1 / 2 ^ 111) = Fin (1 / 2 ^ 111)"
  by (subst float64_binade [where e = "-111"]) (simp_all add: pow2_def round_even_def float_max_def)

lemma float64_tenth_squares_three: "float64 (3 / 2 ^ 112) = Fin (3 / 2 ^ 112)"
  by (subst float64_binade [where e = "-111"]) (simp_all add: pow2_def round_even_def float_max_def)

lemma float64_tenth_std: "float64 (1 / 2 ^ 56) = Fin (1 / 2 ^ 56)"
  by (subst float64_binade [where e = "-56"]) (simp_all add: pow2_def round_even_def float_max_def)

lemma sqrt_tenth_variance: "sqrt (1 / 5192296858534827628530496329220096) = 1 / 72057594037927936"
  by (rule real_sqrt_unique) (simp_all add: power2_eq_square)

lemma float64_10: "float64 10 = Fin 10"
  by (subst float64_binade [where e = 3]) (simp_all add: pow2_def round_even_def float_max_def)

lemma float64_5: "float64 5 = Fin 5"
  by (subst float64_binade [where e = 2]) (simp_all add: pow2_def round_even_def float_max_def)

lemma float64_2: "float64 2 = Fin 2"
  by (subst float64_binade [where e = 1]) (simp_all add: pow2_def round_even_def float_max_def)

lemma float64_1: "float64 1 = Fin 1"
  by (subst float64_binade [where e = 0]) (simp_all add: pow2_def round_even_def float_max_def)

lemma float64_minus_1: "float64 (- 1) = Fin (- 1)"
  by (subst float64_binade [where e = 0]) (simp_all add: pow2_def round_even_def float_max_def)

lemma float64_0: "float64 0 = Fin 0"
  by (simp add: float64_def)

lemmas float64_evals =
  float64_0 float64_1 float64_minus_1 float64_2 float64_5 float64_10 float64_tenth_twice [simplified] float64_tenth_thrice [simplified] float64_tenth_mean [simplified] float64_tenth_deviation [simplified]
  float64_tenth_square [simplified] float64_tenth_squares_two [simplified] float64_tenth_squares_three [simplified] float64_tenth_std [simplified] sqrt_tenth_variance

section \<open>Results about the replacement of non-finite quotients\<close>

lemmas eval_defs =
  preprocess_def min_max_scale_def standardize_def np_min_def np_max_def
  standardize_with_def standardize_quot_def m_bcast_def bcast_ok_def bcast_row_def
  np_mean0_def np_std0_def n_cols_def column_def mean_of_def std_of_def fsum_def
  rounded_def minmax_with_def minmax_quot_def m_sub_s_def m_div_s_def nan_to_num_m_def

lemma is_finite_nan_to_num: "is_finite (nan_to_num x)"
  by (cases x) auto

lemma float_max_pos: "0 < float_max"
  by (simp add: float_max_def)

lemma min_max_scale_finite:
  "min_max_scale X ref = Inr Y \<Longrightarrow> list_all (list_all is_finite) Y"
  by (auto simp: min_max_scale_def minmax_with_def nan_to_num_m_def list_all_iff
      is_finite_nan_to_num split: sum.splits)

lemma standardize_finite:
  "standardize rnd X ref = Inr Z \<Longrightarrow> list_all (list_all is_finite) Z"
  by (auto simp: standardize_def standardize_with_def nan_to_num_m_def list_all_iff
      is_finite_nan_to_num split: sum.splits)

lemma standardize_via_quot:
  "standardize rnd X ref = Inr Z \<Longrightarrow>
   \<exists>Q. standardize_quot (np_mean0 rnd ref) (np_std0 rnd ref) X = Inr Q \<and> Z = map (map nan_to_num) Q"
  by (auto simp: standardize_def standardize_with_def nan_to_num_m_def split: sum.splits)

lemma min_max_scale_via_quot:
  "np_min ref = Inr mn \<Longrightarrow> np_max ref = Inr mx \<Longrightarrow>
   min_max_scale X ref = Inr (map (map nan_to_num) (minmax_quot mn mx X))"
  by (simp add: min_max_scale_def minmax_with_def nan_to_num_m_def)

text \<open>
  C3, as stated, fails: with a training set whose minimum equals its maximum, a test
  value above it gives the quotient \<open>+inf\<close>, and the scaled entry is the largest finite
  \<open>float64\<close>, not zero.
\<close>

theorem nan_to_num_zero_counterexample:
  "minmax_quot (Fin 5) (Fin 5) [[Fin 7]] = [[PInf]] \<and>
   min_max_scale [[Fin 7]] [[Fin 5], [Fin 5]] = Inr [[Fin float_max]] \<and>
   Fin float_max \<noteq> Fin 0"
  by (simp add: eval_defs float64_evals float_max_def)

text \<open>
  C3, amended.  The result of either transform is \<open>np.nan_to_num\<close> applied entry by
  entry to the quotient: NaN becomes zero, \<open>+inf\<close> the largest finite \<open>float64\<close>,
  \<open>-inf\<close> its negative, a finite quotient is kept.  No entry of a result is non-finite.
\<close>

theorem nan_to_num_policy:
  "(np_min ref = Inr mn \<and> np_max ref = Inr mx \<longrightarrow>
      min_max_scale X ref = Inr (map (map nan_to_num) (minmax_quot mn mx X))) \<and>
   (min_max_scale X ref = Inr Y \<longrightarrow> list_all (list_all is_finite) Y) \<and>
   (standardize rnd X ref = Inr Z \<longrightarrow>
      (\<exists>Q. standardize_quot (np_mean0 rnd ref) (np_std0 rnd ref) X = Inr Q \<and>
           Z = map (map nan_to_num) Q) \<and>
      list_all (list_all is_finite) Z) \<and>
   nan_to_num NaN = Fin 0 \<and> nan_to_num PInf = Fin float_max \<and>
   nan_to_num NInf = Fin (- float_max) \<and> nan_to_num (Fin v) = Fin v \<and> 0 < float_max"
  using min_max_scale_via_quot [of ref mn mx X] min_max_scale_finite [of X ref Y]
    standardize_via_quot [of rnd X ref Z] standardize_finite [of rnd X ref Z] float_max_pos
  by simp

theorem nan_to_num_policy_witness:
  "np_min [[Fin 5], [Fin 5]] = Inr (Fin 5) \<and> np_max [[Fin 5], [Fin 5]] = Inr (Fin 5) \<and>
   minmax_quot (Fin 5) (Fin 5) [[Fin 7], [Fin 5], [Fin 4]] = [[PInf], [NaN], [NInf]] \<and>
   min_max_scale [[Fin 7], [Fin 5], [Fin 4]] [[Fin 5], [Fin 5]]
     = Inr [[Fin float_max], [Fin 0], [Fin (- float_max)]] \<and>
   standardize_quot (np_mean0 float64 [[Fin 5], [Fin 5]]) (np_std0 float64 [[Fin 5], [Fin 5]])
       [[Fin 7], [Fin 5], [Fin 4]]
     = Inr [[PInf], [NaN], [NInf]] \<and>
   standardize float64 [[Fin 7], [Fin 5], [Fin 4]] [[Fin 5], [Fin 5]]
     = Inr [[Fin float_max], [Fin 0], [Fin (- float_max)]] \<and>
   list_all (list_all is_finite) [[Fin float_max], [Fin 0], [Fin (- float_max)]]"
proof -
  let ?ref = "[[Fin 5], [Fin 5]]" and ?X = "[[Fin 7], [Fin 5], [Fin 4]]"
  let ?Y = "[[Fin float_max], [Fin 0], [Fin (- float_max)]]"
  have mn: "np_min ?ref = Inr (Fin 5)" and mx: "np_max ?ref = Inr (Fin 5)"
    by (simp_all add: np_min_def np_max_def)
  have q: "minmax_quot (Fin 5) (Fin 5) ?X = [[PInf], [NaN], [NInf]]"
    by (simp add: minmax_quot_def m_sub_s_def m_div_s_def)
  have s: "standardize float64 ?X ?ref = Inr ?Y"
    by (simp add: eval_defs float64_evals)
  have sq: "standardize_quot (np_mean0 float64 ?ref) (np_std0 float64 ?ref) ?X = Inr [[PInf], [NaN], [NInf]]"
    by (simp add: eval_defs float64_evals)
  from nan_to_num_policy [where ref = ?ref and mn = "Fin 5" and mx = "Fin 5" and X = ?X
      and Y = ?Y and Z = ?Y and rnd = float64 and v = 0] mn mx q s sq
  show ?thesis by simp
qed

section \<open>Results about standardization\<close>

lemma foldl_rounded_zeros:
  "rnd 0 = Fin 0 \<Longrightarrow> \<forall>x \<in> set xs. x = Fin 0 \<Longrightarrow>
   foldl (\<lambda>acc y. rounded rnd (fadd acc y)) (Fin 0) xs = Fin 0"
  by (induction xs) (simp_all add: rounded_def)

lemma fsum_zeros:
  "rnd 0 = Fin 0 \<Longrightarrow> \<forall>x \<in> set xs. x = Fin 0 \<Longrightarrow> fsum rnd xs = Fin 0"
  by (cases xs) (simp_all add: fsum_def foldl_rounded_zeros)

lemma mean_of_zeros:
  assumes "rnd 0 = Fin 0" "xs \<noteq> []" "\<forall>x \<in> set xs. x = Fin 0"
  shows "mean_of rnd xs = Fin 0"
  using assms by (simp add: mean_of_def fsum_zeros rounded_def)

lemma std_of_const:
  assumes r0: "rnd 0 = Fin 0" and ne: "xs \<noteq> []" and c: "\<forall>x \<in> set xs. x = Fin c"
    and mean: "mean_of rnd xs = Fin c"
  shows "std_of rnd xs = Fin 0"
proof -
  let ?sq = "map (\<lambda>x. let d = rounded rnd (fsub x (Fin c)) in rounded rnd (fmul d d)) xs"
  have "\<forall>y \<in> set ?sq. y = Fin 0"
    using c r0 by (auto simp: rounded_def Let_def)
  moreover have "?sq \<noteq> []"
    using ne by simp
  ultimately have "mean_of rnd ?sq = Fin 0"
    by (intro mean_of_zeros r0)
  then show ?thesis
    by (simp add: std_of_def mean Let_def rounded_def r0)
qed

lemma n_cols_matrix: "is_matrix k X \<Longrightarrow> X \<noteq> [] \<Longrightarrow> n_cols X = k"
  by (cases X) (auto simp: is_matrix_def n_cols_def)

lemma length_np_mean0: "length (np_mean0 rnd X) = n_cols X"
  by (simp add: np_mean0_def)

lemma length_np_std0: "length (np_std0 rnd X) = n_cols X"
  by (simp add: np_std0_def)

lemma m_bcast_matrix:
  "is_matrix k X \<Longrightarrow> length v = k \<Longrightarrow> m_bcast f X v = Inr (map (\<lambda>r. map2 f r v) X)"
  by (auto simp: m_bcast_def is_matrix_def list_all_iff bcast_ok_def bcast_row_def)

lemma is_matrix_map2:
  "is_matrix k X \<Longrightarrow> length v = k \<Longrightarrow> is_matrix k (map (\<lambda>r. map2 f r v) X)"
  by (auto simp: is_matrix_def list_all_iff)
lemma standardize_with_matrix:
  assumes "is_matrix k X" "length mu = k" "length sd = k"
  shows "standardize_with mu sd X = Inr (map (std_row mu sd) X)"
proof -
  have 1: "m_bcast fsub X mu = Inr (map (\<lambda>r. map2 fsub r mu) X)"
    by (rule m_bcast_matrix [OF assms(1,2)])
  have 2: "m_bcast fdiv (map (\<lambda>r. map2 fsub r mu) X) sd
           = Inr (map (\<lambda>r. map2 fdiv r sd) (map (\<lambda>r. map2 fsub r mu) X))"
    by (rule m_bcast_matrix [OF is_matrix_map2 [OF assms(1,2)] assms(3)])
  show ?thesis
    by (simp add: standardize_with_def standardize_quot_def 1 2 nan_to_num_m_def std_row_def)
qed

lemma standardize_matrix:
  assumes X: "is_matrix k X" and ref: "is_matrix k ref" "ref \<noteq> []"
  shows "standardize rnd X ref = Inr (map (std_row (np_mean0 rnd ref) (np_std0 rnd ref)) X)"
  unfolding standardize_def
  by (rule standardize_with_matrix [OF X])
    (simp_all add: length_np_mean0 length_np_std0 n_cols_matrix [OF ref])

lemma std_row_nth:
  assumes "length r = k" "length mu = k" "length sd = k" "j < k"
  shows "std_row mu sd r ! j = nan_to_num (fdiv (fsub (r ! j) (mu ! j)) (sd ! j))"
  using assms by (simp add: std_row_def)

lemma min_max_scale_ok:
  "concat ref \<noteq> [] \<Longrightarrow> \<exists>Y. min_max_scale X ref = Inr Y"
  by (cases "concat ref") (auto simp: min_max_scale_def np_min_def np_max_def)

lemma concat_matrix_nonempty: "is_matrix k X \<Longrightarrow> X \<noteq> [] \<Longrightarrow> 0 < k \<Longrightarrow> concat X \<noteq> []"
  by (cases X) (auto simp: is_matrix_def)

lemma preprocess_matrix:
  assumes tr: "is_matrix k train_X" "train_X \<noteq> []" and k: "0 < k"
    and te: "is_matrix k test_X"
  shows "\<exists>p. preprocess rnd train_X test_X = Inr p \<and>
     standardize rnd train_X train_X = Inr (train_X_std p) \<and>
     standardize rnd test_X train_X = Inr (test_X_std p) \<and>
     min_max_scale train_X train_X = Inr (train_X_norm p) \<and>
     min_max_scale test_X train_X = Inr (test_X_norm p)"
proof -
  from concat_matrix_nonempty [OF tr k] have ne: "concat train_X \<noteq> []" .
  from min_max_scale_ok [OF ne] obtain trn ten where
    "min_max_scale train_X train_X = Inr trn" "min_max_scale test_X train_X = Inr ten"
    by blast
  then show ?thesis
    by (simp add: preprocess_def standardize_matrix [OF tr(1) tr] standardize_matrix [OF te tr])
qed

text \<open>
  C2, as stated, fails twice over.  On the test side: the training column is
  constantly 5, its standard deviation is 0 and the training output is zero, but the
  test value 7 is standardized to the largest finite \<open>float64\<close>.  On both sides, by
  rounding: for a training column of three entries 0.1 the sum rounds up, the computed
  mean is \<open>7205759403792795 / 2 ^ 56\<close>, one unit in the last place above 0.1, the computed
  standard deviation is \<open>1 / 2 ^ 56\<close> and not 0, and every entry is standardized to -1.
\<close>

theorem zero_variance_counterexample:
  "np_std0 float64 [[Fin 5], [Fin 5]] = [Fin 0] \<and>
   standardize float64 [[Fin 5], [Fin 5]] [[Fin 5], [Fin 5]] = Inr [[Fin 0], [Fin 0]] \<and>
   standardize float64 [[Fin 7]] [[Fin 5], [Fin 5]] = Inr [[Fin float_max]] \<and>
   Fin float_max \<noteq> Fin 0 \<and>
   np_mean0 float64 [[Fin (3602879701896397 / 2 ^ 55)], [Fin (3602879701896397 / 2 ^ 55)],
                    [Fin (3602879701896397 / 2 ^ 55)]]
     = [Fin (7205759403792795 / 2 ^ 56)] \<and>
   np_std0 float64 [[Fin (3602879701896397 / 2 ^ 55)], [Fin (3602879701896397 / 2 ^ 55)],
                   [Fin (3602879701896397 / 2 ^ 55)]]
     = [Fin (1 / 2 ^ 56)] \<and>
   standardize float64
       [[Fin (3602879701896397 / 2 ^ 55)], [Fin (3602879701896397 / 2 ^ 55)],
        [Fin (3602879701896397 / 2 ^ 55)]]
       [[Fin (3602879701896397 / 2 ^ 55)], [Fin (3602879701896397 / 2 ^ 55)],
        [Fin (3602879701896397 / 2 ^ 55)]]
     = Inr [[Fin (- 1)], [Fin (- 1)], [Fin (- 1)]]"
  by (simp add: eval_defs float64_evals float_max_def)

text \<open>
  C2, amended.  Let column \<open>j\<close> of a non-empty training array hold one finite value
  \<open>c\<close> in every row, and let the computed mean of that column be \<open>c\<close> itself (the
  rounding of 0 being 0).  Then the cell succeeds; column \<open>j\<close> of the standardized
  training array is all zeros; and in the standardized test array an entry of column
  \<open>j\<close> is zero where the test value equals \<open>c\<close> (or is NaN), the largest finite
  \<open>float64\<close> where it is greater, and its negative where it is smaller.
\<close>

theorem zero_variance_column:
  assumes tr: "is_matrix k train_X" "train_X \<noteq> []" and te: "is_matrix k test_X"
    and j: "j < k" and const: "\<forall>r \<in> set train_X. r ! j = Fin c"
    and r0: "rnd 0 = Fin 0" and mean: "np_mean0 rnd train_X ! j = Fin c"
  shows "\<exists>p. preprocess rnd train_X test_X = Inr p \<and>
     (\<forall>i < length train_X. train_X_std p ! i ! j = Fin 0) \<and>
     (\<forall>i < length test_X. test_X_std p ! i ! j =
        (case test_X ! i ! j of
           Fin x \<Rightarrow> if x = c then Fin 0 else if c < x then Fin float_max else Fin (- float_max)
         | PInf \<Rightarrow> Fin float_max
         | NInf \<Rightarrow> Fin (- float_max)
         | NaN \<Rightarrow> Fin 0))"
proof -
  from j have k: "0 < k" by simp
  from preprocess_matrix [OF tr k te] obtain p where p: "preprocess rnd train_X test_X = Inr p"
    and trs: "standardize rnd train_X train_X = Inr (train_X_std p)"
    and tes: "standardize rnd test_X train_X = Inr (test_X_std p)" by blast
  let ?mu = "np_mean0 rnd train_X" and ?sd = "np_std0 rnd train_X"
  have len: "length ?mu = k" "length ?sd = k"
    by (simp_all add: length_np_mean0 length_np_std0 n_cols_matrix [OF tr])
  have col: "column j train_X \<noteq> []" "\<forall>x \<in> set (column j train_X). x = Fin c"
    using tr(2) const by (auto simp: column_def)
  have mu: "?mu ! j = Fin c"
    by (rule mean)
  with j have "mean_of rnd (column j train_X) = Fin c"
    by (simp add: np_mean0_def n_cols_matrix [OF tr])
  from std_of_const [OF r0 col this] j have sd: "?sd ! j = Fin 0"
    by (simp add: np_std0_def n_cols_matrix [OF tr])
  have entry: "Y ! i ! j = nan_to_num (fdiv (fsub (X ! i ! j) (Fin c)) (Fin 0))"
    if "is_matrix k X" "standardize rnd X train_X = Inr Y" "i < length X" for X Y i
  proof -
    from that(1,3) have "length (X ! i) = k"
      by (simp add: is_matrix_def list_all_length)
    from that(2) have "Y = map (std_row ?mu ?sd) X"
      by (simp add: standardize_matrix [OF that(1) tr])
    with that(3) have "Y ! i ! j = std_row ?mu ?sd (X ! i) ! j" by simp
    also from std_row_nth [OF \<open>length (X ! i) = k\<close> len j]
    have "\<dots> = nan_to_num (fdiv (fsub (X ! i ! j) (Fin c)) (Fin 0))"
      by (simp add: mu sd)
    finally show ?thesis .
  qed
  have "train_X_std p ! i ! j = Fin 0" if "i < length train_X" for i
  proof -
    from that const have "train_X ! i ! j = Fin c" by simp
    with entry [OF tr(1) trs that] show ?thesis by simp
  qed
  moreover have "test_X_std p ! i ! j =
        (case test_X ! i ! j of
           Fin x \<Rightarrow> if x = c then Fin 0 else if c < x then Fin float_max else Fin (- float_max)
         | PInf \<Rightarrow> Fin float_max
         | NInf \<Rightarrow> Fin (- float_max)
         | NaN \<Rightarrow> Fin 0)" if "i < length test_X" for i
    using entry [OF te tes that] by (cases "test_X ! i ! j") auto
  ultimately show ?thesis using p by blast
qed

theorem zero_variance_column_witness:
  "is_matrix 2 [[Fin 5, Fin 0], [Fin 5, Fin 2]] \<and> is_matrix 2 [[Fin 7, Fin 1], [Fin 5, Fin 1]] \<and>
   list_all (\<lambda>r. r ! 0 = Fin 5) [[Fin 5, Fin 0], [Fin 5, Fin 2]] \<and>
   float64 0 = Fin 0 \<and> np_mean0 float64 [[Fin 5, Fin 0], [Fin 5, Fin 2]] ! 0 = Fin 5 \<and>
   preprocess float64 [[Fin 5, Fin 0], [Fin 5, Fin 2]] [[Fin 7, Fin 1], [Fin 5, Fin 1]] =
     Inr \<lparr> train_X_base = [[Fin 5, Fin 0], [Fin 5, Fin 2]],
           test_X_base = [[Fin 7, Fin 1], [Fin 5, Fin 1]],
           train_X_norm = [[Fin 1, Fin 0], [Fin 1, Fin (2 / 5)]],
           test_X_norm = [[Fin (7 / 5), Fin (1 / 5)], [Fin 1, Fin (1 / 5)]],
           train_X_std = [[Fin 0, Fin (- 1)], [Fin 0, Fin 1]],
           test_X_std = [[Fin float_max, Fin 0], [Fin 0, Fin 0]] \<rparr>"
proof -
  let ?tr = "[[Fin 5, Fin 0], [Fin 5, Fin 2]]" and ?te = "[[Fin 7, Fin 1], [Fin 5, Fin 1]]"
  have m: "is_matrix 2 ?tr" "is_matrix 2 ?te" by (simp_all add: is_matrix_def)
  have c: "\<forall>r \<in> set ?tr. r ! 0 = Fin 5" by simp
  have mean: "np_mean0 float64 ?tr ! 0 = Fin 5" by (simp add: eval_defs float64_evals)
  have ev: "preprocess float64 ?tr ?te =
     Inr \<lparr> train_X_base = ?tr, test_X_base = ?te,
           train_X_norm = [[Fin 1, Fin 0], [Fin 1, Fin (2 / 5)]],
           test_X_norm = [[Fin (7 / 5), Fin (1 / 5)], [Fin 1, Fin (1 / 5)]],
           train_X_std = [[Fin 0, Fin (- 1)], [Fin 0, Fin 1]],
           test_X_std = [[Fin float_max, Fin 0], [Fin 0, Fin 0]] \<rparr>"
    by (simp add: eval_defs float64_evals)
  from zero_variance_column [OF m(1) _ m(2) _ c float64_0 mean] m mean ev show ?thesis
    by (simp add: float64_0)
qed

section \<open>Results about the statistics applied to the test set\<close>

lemma minmax_with_rows: "minmax_with mn mx X = map (map (\<lambda>x. nan_to_num (fdiv (fsub x mn) (fsub mx mn)))) X"
  by (simp add: minmax_with_def minmax_quot_def m_sub_s_def m_div_s_def nan_to_num_m_def)

lemma standardize_with_rows:
  "standardize_with mu sd X = Inr Y \<Longrightarrow>
   Y = map (\<lambda>r. map nan_to_num (bcast_row fdiv (bcast_row fsub r mu) sd)) X"
  by (auto simp: standardize_with_def standardize_quot_def m_bcast_def nan_to_num_m_def
      split: sum.splits if_splits)

lemma preprocess_fields:
  assumes "preprocess rnd train_X test_X = Inr p"
  shows "\<exists>mn mx. np_min train_X = Inr mn \<and> np_max train_X = Inr mx \<and>
           train_X_norm p = minmax_with mn mx train_X \<and>
           test_X_norm p = minmax_with mn mx test_X"
    and "standardize_with (np_mean0 rnd train_X) (np_std0 rnd train_X) train_X = Inr (train_X_std p)"
    and "standardize_with (np_mean0 rnd train_X) (np_std0 rnd train_X) test_X = Inr (test_X_std p)"
    and "train_X_base p = train_X" and "test_X_base p = test_X"
  using assms
  by (auto simp: preprocess_def min_max_scale_def standardize_def split: sum.splits)

text \<open>
  C5.  Run the cell on one training array with two different test arrays.  The
  statistics applied to either test array are the minimum, maximum, per-feature mean
  and per-feature standard deviation of the training array; the transformed training
  arrays are the same in both runs; and a test row is transformed to the same row
  wherever it stands and whatever the other test rows are.
\<close>

theorem test_statistics_from_train_only:
  assumes p1: "preprocess rnd train_X test1 = Inr p1" and p2: "preprocess rnd train_X test2 = Inr p2"
  shows "(\<exists>mn mx. np_min train_X = Inr mn \<and> np_max train_X = Inr mx \<and>
            test_X_norm p1 = minmax_with mn mx test1 \<and>
            test_X_norm p2 = minmax_with mn mx test2) \<and>
         standardize_with (np_mean0 rnd train_X) (np_std0 rnd train_X) test1 = Inr (test_X_std p1) \<and>
         standardize_with (np_mean0 rnd train_X) (np_std0 rnd train_X) test2 = Inr (test_X_std p2) \<and>
         train_X_norm p1 = train_X_norm p2 \<and> train_X_std p1 = train_X_std p2 \<and>
         (\<forall>i i'. i < length test1 \<and> i' < length test2 \<and> test1 ! i = test2 ! i' \<longrightarrow>
            test_X_norm p1 ! i = test_X_norm p2 ! i' \<and>
            test_X_std p1 ! i = test_X_std p2 ! i')"
proof -
  from preprocess_fields(1) [OF p1] obtain mn mx where
    s: "np_min train_X = Inr mn" "np_max train_X = Inr mx"
    and n1: "train_X_norm p1 = minmax_with mn mx train_X" "test_X_norm p1 = minmax_with mn mx test1"
    by blast
  from preprocess_fields(1) [OF p2] s
  have n2: "train_X_norm p2 = minmax_with mn mx train_X" "test_X_norm p2 = minmax_with mn mx test2"
    by auto
  note s1 = preprocess_fields(2,3) [OF p1] and s2 = preprocess_fields(2,3) [OF p2]
  have rows: "test_X_norm p1 ! i = test_X_norm p2 ! i' \<and> test_X_std p1 ! i = test_X_std p2 ! i'"
    if "i < length test1" "i' < length test2" "test1 ! i = test2 ! i'" for i i'
    using that by (simp add: n1 n2 minmax_with_rows standardize_with_rows [OF s1(2)]
        standardize_with_rows [OF s2(2)])
  from s1 s2 have "train_X_std p1 = train_X_std p2" by simp
  with s n1 n2 s1 s2 rows show ?thesis by auto
qed

theorem test_statistics_from_train_only_witness:
  "preprocess float64 [[Fin 0], [Fin 2]] [[Fin 3], [Fin 1]] =
     Inr \<lparr> train_X_base = [[Fin 0], [Fin 2]], test_X_base = [[Fin 3], [Fin 1]],
           train_X_norm = [[Fin 0], [Fin 1]], test_X_norm = [[Fin (3 / 2)], [Fin (1 / 2)]],
           train_X_std = [[Fin (- 1)], [Fin 1]], test_X_std = [[Fin 2], [Fin 0]] \<rparr> \<and>
   preprocess float64 [[Fin 0], [Fin 2]] [[Fin 100], [Fin 3]] =
     Inr \<lparr> train_X_base = [[Fin 0], [Fin 2]], test_X_base = [[Fin 100], [Fin 3]],
           train_X_norm = [[Fin 0], [Fin 1]], test_X_norm = [[Fin 50], [Fin (3 / 2)]],
           train_X_std = [[Fin (- 1)], [Fin 1]], test_X_std = [[Fin 99], [Fin 2]] \<rparr> \<and>
   [[Fin 3], [Fin 1]] ! 0 = [[Fin 100], [Fin 3]] ! 1 \<and>
   [[Fin (3 / 2)], [Fin (1 / 2)]] ! 0 = [[Fin 50], [Fin (3 / 2)]] ! 1 \<and>
   [[Fin 2], [Fin 0]] ! 0 = [[Fin 99], [Fin 2]] ! 1"
proof -
  let ?tr = "[[Fin 0], [Fin 2]]"
  have e1: "preprocess float64 ?tr [[Fin 3], [Fin 1]] =
     Inr \<lparr> train_X_base = [[Fin 0], [Fin 2]], test_X_base = [[Fin 3], [Fin 1]],
           train_X_norm = [[Fin 0], [Fin 1]], test_X_norm = [[Fin (3 / 2)], [Fin (1 / 2)]],
           train_X_std = [[Fin (- 1)], [Fin 1]], test_X_std = [[Fin 2], [Fin 0]] \<rparr>"
    by (simp add: eval_defs float64_evals)
  have e2: "preprocess float64 ?tr [[Fin 100], [Fin 3]] =
     Inr \<lparr> train_X_base = [[Fin 0], [Fin 2]], test_X_base = [[Fin 100], [Fin 3]],
           train_X_norm = [[Fin 0], [Fin 1]], test_X_norm = [[Fin 50], [Fin (3 / 2)]],
           train_X_std = [[Fin (- 1)], [Fin 1]], test_X_std = [[Fin 99], [Fin 2]] \<rparr>"
    by (simp add: eval_defs float64_evals)
  from test_statistics_from_train_only [OF e1 e2] e1 e2 show ?thesis by simp
qed

section \<open>Results about applying a transform twice\<close>


lemma rescale_neutral: "rescale 0 1 x = nan_to_num x"
  by (cases x) (auto simp: rescale_def)








section \<open>Results about the split\<close>

lemma split_point_800: "split_point 800 = 600"
  by (simp add: split_point_def)

text \<open>
  C4.  For features and labels of 800 rows each, and a generator whose order for seed 0
  is a permutation of the 800 indices, the split succeeds with 600 training and 200
  testing rows; position \<open>i\<close> of the training set holds row \<open>rng 0 800 ! i\<close> of the
  input and position \<open>i\<close> of the testing set row \<open>rng 0 800 ! (600 + i)\<close>; and every
  invocation whose generator gives the same order for seed 0 returns the same four
  arrays.
\<close>

theorem split_800_rows:
  assumes len: "length features = 800" "length labels = 800"
    and perm: "length (rng 0 800) = 800" "set (rng 0 800) = {0..<800}"
  shows "\<exists>train_X train_y test_X test_y.
           train_test_split rng features labels = Inr ((train_X, train_y), (test_X, test_y)) \<and>
           length train_X = 600 \<and> length train_y = 600 \<and>
           length test_X = 200 \<and> length test_y = 200 \<and>
           (\<forall>i < 600. train_X ! i = features ! (rng 0 800 ! i) \<and>
                      train_y ! i = labels ! (rng 0 800 ! i)) \<and>
           (\<forall>i < 200. test_X ! i = features ! (rng 0 800 ! (600 + i)) \<and>
                      test_y ! i = labels ! (rng 0 800 ! (600 + i))) \<and>
           (\<forall>rng'. rng' 0 800 = rng 0 800 \<longrightarrow>
              train_test_split rng' features labels
                = Inr ((train_X, train_y), (test_X, test_y)))"
proof -
  let ?idx = "rng 0 800"
  have ok: "list_all (\<lambda>i. i < 800) ?idx"
    using perm(2) by (simp add: list_all_iff)
  have run: "train_test_split r features labels =
      Inr ((take 600 (map (\<lambda>i. features ! i) ?idx), take 600 (map (\<lambda>i. labels ! i) ?idx)),
           (drop 600 (map (\<lambda>i. features ! i) ?idx), drop 600 (map (\<lambda>i. labels ! i) ?idx)))"
    if "r 0 800 = ?idx" for r
    using that ok by (simp add: train_test_split_def shuffle_def len perm(1) split_point_800 Let_def)
  have here: "train_test_split rng features labels =
      Inr ((take 600 (map (\<lambda>i. features ! i) ?idx), take 600 (map (\<lambda>i. labels ! i) ?idx)),
           (drop 600 (map (\<lambda>i. features ! i) ?idx), drop 600 (map (\<lambda>i. labels ! i) ?idx)))"
    by (rule run) simp
  show ?thesis
    apply (intro exI conjI)
            apply (rule here)
    using perm(1) run by simp_all
qed

theorem split_800_rows_witness:
  "length (map int [0..<800]) = 800 \<and> length (replicate 800 (0::nat)) = 800 \<and>
   length (rev [0..<800]) = 800 \<and> set (rev [0..<800]) = {0..<800} \<and>
   (\<exists>train_X train_y test_X test_y.
      train_test_split (\<lambda>seed n. rev [0..<n]) (map int [0..<800]) (replicate 800 (0::nat))
        = Inr ((train_X, train_y), (test_X, test_y)) \<and>
      length train_X = 600 \<and> length train_y = 600 \<and>
      length test_X = 200 \<and> length test_y = 200 \<and>
      train_X ! 0 = 799 \<and> test_X ! 0 = 199)"
proof -
  have l: "length (map int [0..<800]) = 800" "length (replicate 800 (0::nat)) = 800" by simp_all
  have p: "length ((\<lambda>seed n. rev [0..<n]) (0::int) 800) = 800"
    "set ((\<lambda>seed n. rev [0..<n]) (0::int) 800) = {0..<800}" by simp_all
  from split_800_rows [of "map int [0..<800]" "replicate 800 (0::nat)" "\<lambda>seed n. rev [0..<n]",
      OF l p]
  obtain train_X train_y test_X test_y where
    r: "train_test_split (\<lambda>seed n. rev [0..<n]) (map int [0..<800]) (replicate 800 (0::nat))
        = Inr ((train_X, train_y), (test_X, test_y))"
    and n: "length train_X = 600" "length train_y = 600" "length test_X = 200" "length test_y = 200"
    and tr: "\<forall>i < 600. train_X ! i = map int [0..<800] ! (rev [0..<800] ! i) \<and>
                      train_y ! i = replicate 800 (0::nat) ! (rev [0..<800] ! i)"
    and te: "\<forall>i < 200. test_X ! i = map int [0..<800] ! (rev [0..<800] ! (600 + i)) \<and>
                      test_y ! i = replicate 800 (0::nat) ! (rev [0..<800] ! (600 + i))"
    by blast
  from tr have "train_X ! 0 = 799" by (simp add: rev_nth)
  moreover from te have "test_X ! 0 = 199" by (simp add: rev_nth)
  ultimately show ?thesis using r n by simp
qed

section \<open>Results about copy semantics\<close>

lemma frame_ret: "frame (ret x)"
  by (simp add: frame_def ret_def)

lemma frame_bind:
  assumes m: "frame m" and f: "\<And>x. frame (f x)"
  shows "frame (bind m f)"
  unfolding frame_def
proof (intro allI)
  fix s
  obtain r s' where ms: "m s = (r, s')" by (cases "m s")
  from m ms have 1: "lim s \<le> lim s'" "\<forall>a < lim s. arrays s' a = arrays s a"
    by (auto simp: frame_def dest: spec [of _ s])
  show "lim s \<le> lim (snd (bind m f s)) \<and> (\<forall>a < lim s. arrays (snd (bind m f s)) a = arrays s a)"
  proof (cases r)
    case (Inl e)
    with ms 1 show ?thesis by (simp add: bind_def)
  next
    case (Inr x)
    from f [of x] have 2: "lim s' \<le> lim (snd (f x s'))"
      "\<forall>a < lim s'. arrays (snd (f x s')) a = arrays s' a"
      by (auto simp: frame_def)
    from Inr ms have "bind m f s = f x s'" by (simp add: bind_def)
    with 1 2 show ?thesis by auto
  qed
qed

lemma frame_new_array: "frame (new_array m)"
  by (simp add: frame_def new_array_def)

lemma frame_prims:
  "frame (arr_copy a)" "frame (arr_sub_scalar a x)" "frame (arr_div_scalar a x)"
  "frame (arr_nan_to_num a)" "frame (arr_min a)" "frame (arr_max a)"
  "frame (arr_mean0 rnd a)" "frame (arr_std0 rnd a)" "frame (arr_bcast f a v)"
  by (auto simp: frame_def new_array_def arr_copy_def arr_sub_scalar_def arr_div_scalar_def
      arr_nan_to_num_def arr_min_def arr_max_def arr_mean0_def arr_std0_def arr_bcast_def
      split: sum.splits)

lemma not_frame_idiv_scalar: "\<not> frame (arr_idiv_scalar 0 (Fin 255))"
proof
  assume "frame (arr_idiv_scalar 0 (Fin 255))"
  then have "arrays (snd (arr_idiv_scalar 0 (Fin 255) example_store)) 0 = arrays example_store 0"
    by (simp add: frame_def example_store_def)
  then show False
    by (simp add: arr_idiv_scalar_def example_store_def m_div_s_def)
qed

lemma frame_norm_stmt: "frame (norm_stmt x t)"
  unfolding norm_stmt_def by (intro frame_bind frame_prims)

lemma frame_std_stmt: "frame (std_stmt rnd x t)"
  unfolding std_stmt_def by (intro frame_bind frame_prims)

lemma frame_cell: "frame (preprocessing_cell rnd a b)"
  unfolding preprocessing_cell_def
  by (intro frame_bind frame_prims frame_norm_stmt frame_std_stmt frame_ret)


lemmas prim_defs = bind_def ret_def new_array_def arr_copy_def arr_sub_scalar_def arr_div_scalar_def
      arr_nan_to_num_def arr_min_def arr_max_def arr_mean0_def arr_std0_def arr_bcast_def

lemma norm_stmt_run:
  assumes "x < lim s" "t < lim s"
  shows "case min_max_scale (arrays s x) (arrays s t) of
           Inl e \<Rightarrow> fst (norm_stmt x t s) = Inl e
         | Inr Y \<Rightarrow> fst (norm_stmt x t s) = Inr (lim s + 2) \<and>
                    lim (snd (norm_stmt x t s)) = lim s + 3 \<and>
                    arrays (snd (norm_stmt x t s)) (lim s + 2) = Y"
  using assms
  by (auto simp: norm_stmt_def prim_defs min_max_scale_def minmax_with_def minmax_quot_def
      split: sum.splits)

lemma std_stmt_run:
  assumes "x < lim s" "t < lim s"
  shows "case standardize rnd (arrays s x) (arrays s t) of
           Inl e \<Rightarrow> fst (std_stmt rnd x t s) = Inl e
         | Inr Y \<Rightarrow> fst (std_stmt rnd x t s) = Inr (lim s + 2) \<and>
                    lim (snd (std_stmt rnd x t s)) = lim s + 3 \<and>
                    arrays (snd (std_stmt rnd x t s)) (lim s + 2) = Y"
  using assms
  by (auto simp: std_stmt_def prim_defs standardize_def standardize_with_def standardize_quot_def
      split: sum.splits)


lemma cell_run:
  assumes "a < lim s" "b < lim s"
  shows "case preprocess rnd (arrays s a) (arrays s b) of
           Inl e \<Rightarrow> fst (preprocessing_cell rnd a b s) = Inl e
         | Inr p \<Rightarrow>
             fst (preprocessing_cell rnd a b s) =
               Inr \<lparr> ref_train_X_base = lim s, ref_test_X_base = lim s + 1,
                     ref_train_X_norm = lim s + 4, ref_test_X_norm = lim s + 7,
                     ref_train_X_std = lim s + 12, ref_test_X_std = lim s + 15 \<rparr> \<and>
             lim (snd (preprocessing_cell rnd a b s)) = lim s + 16 \<and>
             arrays (snd (preprocessing_cell rnd a b s)) (lim s) = train_X_base p \<and>
             arrays (snd (preprocessing_cell rnd a b s)) (lim s + 1) = test_X_base p \<and>
             arrays (snd (preprocessing_cell rnd a b s)) (lim s + 4) = train_X_norm p \<and>
             arrays (snd (preprocessing_cell rnd a b s)) (lim s + 7) = test_X_norm p \<and>
             arrays (snd (preprocessing_cell rnd a b s)) (lim s + 12) = train_X_std p \<and>
             arrays (snd (preprocessing_cell rnd a b s)) (lim s + 15) = test_X_std p"
  using assms
  by (auto simp: preprocessing_cell_def norm_stmt_def std_stmt_def prim_defs
      preprocess_def min_max_scale_def minmax_with_def minmax_quot_def
      standardize_def standardize_with_def standardize_quot_def
      split: sum.splits)

text \<open>
  C9.  Run the cell on any store holding \<open>train_X\<close> and \<open>test_X\<close>.  Whether it ends
  with an exception or not, every array that was in the store, \<open>train_X\<close> and \<open>test_X\<close>
  among them, holds the same values afterwards.  When it succeeds, the six arrays it
  binds are at six different addresses that were not in use before, and they hold the
  six arrays of \<open>preprocess\<close>; when it raises, \<open>preprocess\<close> raises the same exception.
\<close>

theorem preprocessing_cell_copy_semantics:
  assumes a: "train_X < lim s" and b: "test_X < lim s"
  shows "case preprocessing_cell rnd train_X test_X s of (res, s') \<Rightarrow>
           (\<forall>c < lim s. arrays s' c = arrays s c) \<and>
           arrays s' train_X = arrays s train_X \<and> arrays s' test_X = arrays s test_X \<and>
           (case res of
              Inl e \<Rightarrow> preprocess rnd (arrays s train_X) (arrays s test_X) = Inl e
            | Inr r \<Rightarrow>
                list_all (\<lambda>c. lim s \<le> c \<and> c < lim s')
                  [ref_train_X_base r, ref_test_X_base r, ref_train_X_norm r,
                   ref_test_X_norm r, ref_train_X_std r, ref_test_X_std r] \<and>
                distinct
                  [ref_train_X_base r, ref_test_X_base r, ref_train_X_norm r,
                   ref_test_X_norm r, ref_train_X_std r, ref_test_X_std r] \<and>
                preprocess rnd (arrays s train_X) (arrays s test_X) =
                  Inr \<lparr> train_X_base = arrays s' (ref_train_X_base r),
                        test_X_base = arrays s' (ref_test_X_base r),
                        train_X_norm = arrays s' (ref_train_X_norm r),
                        test_X_norm = arrays s' (ref_test_X_norm r),
                        train_X_std = arrays s' (ref_train_X_std r),
                        test_X_std = arrays s' (ref_test_X_std r) \<rparr>)"
proof -
  obtain res s' where run: "preprocessing_cell rnd train_X test_X s = (res, s')"
    by (cases "preprocessing_cell rnd train_X test_X s")
  from frame_cell [of rnd train_X test_X] run
  have fr: "\<forall>c < lim s. arrays s' c = arrays s c"
    by (auto simp: frame_def dest: spec [of _ s])
  with a b have ab: "arrays s' train_X = arrays s train_X" "arrays s' test_X = arrays s test_X"
    by simp_all
  have "case res of
          Inl e \<Rightarrow> preprocess rnd (arrays s train_X) (arrays s test_X) = Inl e
        | Inr r \<Rightarrow>
            list_all (\<lambda>c. lim s \<le> c \<and> c < lim s')
              [ref_train_X_base r, ref_test_X_base r, ref_train_X_norm r,
               ref_test_X_norm r, ref_train_X_std r, ref_test_X_std r] \<and>
            distinct
              [ref_train_X_base r, ref_test_X_base r, ref_train_X_norm r,
               ref_test_X_norm r, ref_train_X_std r, ref_test_X_std r] \<and>
            preprocess rnd (arrays s train_X) (arrays s test_X) =
              Inr \<lparr> train_X_base = arrays s' (ref_train_X_base r),
                    test_X_base = arrays s' (ref_test_X_base r),
                    train_X_norm = arrays s' (ref_train_X_norm r),
                    test_X_norm = arrays s' (ref_test_X_norm r),
                    train_X_std = arrays s' (ref_train_X_std r),
                    test_X_std = arrays s' (ref_test_X_std r) \<rparr>"
  proof (cases "preprocess rnd (arrays s train_X) (arrays s test_X)")
    case (Inl e)
    with cell_run [OF a b, of rnd] run show ?thesis by simp
  next
    case (Inr p)
    with cell_run [OF a b, of rnd] run show ?thesis by simp
  qed
  with fr ab run show ?thesis by simp
qed

theorem preprocessing_cell_copy_semantics_witness:
  "0 < lim example_store \<and> 1 < lim example_store \<and>
   arrays (snd (preprocessing_cell float64 0 1 example_store)) 0 = [[Fin 0], [Fin 2]] \<and>
   arrays (snd (preprocessing_cell float64 0 1 example_store)) 1 = [[Fin 3]] \<and>
   (\<exists>r. fst (preprocessing_cell float64 0 1 example_store) = Inr r \<and>
        2 \<le> ref_train_X_base r \<and> 2 \<le> ref_test_X_base r \<and> 2 \<le> ref_train_X_norm r \<and>
        2 \<le> ref_test_X_norm r \<and> 2 \<le> ref_train_X_std r \<and> 2 \<le> ref_test_X_std r \<and>
        arrays (snd (preprocessing_cell float64 0 1 example_store)) (ref_train_X_base r)
          = [[Fin 0], [Fin 2]] \<and>
        arrays (snd (preprocessing_cell float64 0 1 example_store)) (ref_train_X_norm r)
          = [[Fin 0], [Fin 1]] \<and>
        arrays (snd (preprocessing_cell float64 0 1 example_store)) (ref_test_X_std r)
          = [[Fin 2]])"
proof -
  have l: "0 < lim example_store" "1 < lim example_store"
    by (simp_all add: example_store_def)
  have v: "arrays example_store 0 = [[Fin 0], [Fin 2]]" "arrays example_store 1 = [[Fin 3]]"
    "arrays example_store (Suc 0) = [[Fin 3]]"
    by (simp_all add: example_store_def)
  have p: "preprocess float64 [[Fin 0], [Fin 2]] [[Fin 3]] =
     Inr \<lparr> train_X_base = [[Fin 0], [Fin 2]], test_X_base = [[Fin 3]],
           train_X_norm = [[Fin 0], [Fin 1]], test_X_norm = [[Fin (3 / 2)]],
           train_X_std = [[Fin (- 1)], [Fin 1]], test_X_std = [[Fin 2]] \<rparr>"
    by (simp add: eval_defs float64_evals)
  have two: "lim example_store = 2" by (simp add: example_store_def)
  from preprocessing_cell_copy_semantics [OF l, where rnd = float64] show ?thesis
    by (auto simp: v p two l split: prod.splits sum.splits)
qed

end
